theory Spec2Isabelle
  imports Main
begin

section \<open>Values exchanged with the collaborators\<close>

text \<open>
  The engine in \<^verbatim>\<open>backend/services/proevent_service.py\<close> talks to three modules that are
  collaborators of the code under study: \<^verbatim>\<open>proserver_service\<close> (the live system),
  \<^verbatim>\<open>cache_service\<close> (a key/value cache) and \<^verbatim>\<open>sqlite_config\<close> (schedules, ignore list,
  snapshots). Every call to one of them is a step of the model: it is appended to a trace,
  it may raise, and otherwise it answers.
\<close>

datatype exn = Exn string

datatype 'a result = Ok 'a | Raise exn

text \<open>A device row of the live system: the dict keys \<^verbatim>\<open>"id"\<close> and \<^verbatim>\<open>"state"\<close>.\<close>

record device =
  dev_id :: int
  dev_state :: int

text \<open>
  An entry \<^verbatim>\<open>{"id": pid, "state": s}\<close> of a bulk write or of a snapshot. State \<open>0\<close> is
  Reactive and state \<open>1\<close> is Non-Reactive.
\<close>

type_synonym target = "int \<times> int"

record ignore_entry =
  building_frk :: int
  ignore_on_arm :: bool
  ignore_on_disarm :: bool

record schedule =
  start_time :: "string option"

record datetime =
  hour :: nat
  minute :: nat
  second :: nat

datatype call =
    GetAllLiveBuildingArmStates
  | GetProeventsForBuildingFromDb int
  | SetProeventReactiveStateBulk "target list"
  | SendDisarmedAxeMessage int
  | GetCacheValue string
  | SetCacheValue string
  | GetIgnoredProevents
  | GetBuildingTime int
  | GetSnapshot int
  | SaveSnapshot int "target list"
  | ClearSnapshot int

datatype level = INFO | WARNING | ERROR

text \<open>
  The state the functions act on: the calls issued so far, the log records written so
  far, the two keys of the cache the engine uses (\<^verbatim>\<open>"panel_state_cache"\<close>, a dict from
  \<^verbatim>\<open>str(building_id)\<close> to the last arm state seen, and \<^verbatim>\<open>'panel_armed'\<close>, the global
  flag; \<open>None\<close> is a key never set), and the snapshot table.
\<close>

record world =
  trace :: "call list"
  logged :: "(level \<times> string) list"
  panel_state_cache :: "(string \<rightharpoonup> bool) option"
  panel_armed :: "bool option"
  snapshots :: "int \<rightharpoonup> target list"

text \<open>
  What the collaborators answer is a parameter of the model. Each answer may depend on
  the calls issued before it, so two reads of the same table need not agree.
  \<open>fails\<close> says whether a call raises. \<open>set_iter\<close> is the order in which Python iterates
  over the set built from the given elements, which the language leaves open.
\<close>

record env =
  fails :: "call list \<Rightarrow> call \<Rightarrow> exn option"
  live_arm_states :: "call list \<Rightarrow> (int \<times> bool) list"
  proevents :: "call list \<Rightarrow> int \<Rightarrow> device list"
  bulk_ok :: "call list \<Rightarrow> target list \<Rightarrow> bool"
  ignored_proevents :: "call list \<Rightarrow> (int \<times> ignore_entry) list"
  building_time :: "call list \<Rightarrow> int \<Rightarrow> schedule option"
  clock :: "call list \<Rightarrow> datetime"
  set_iter :: "int list \<Rightarrow> int list"

section \<open>Control flow: sequencing, exceptions, loops, logging\<close>

definition return :: "'a \<Rightarrow> world \<Rightarrow> 'a result \<times> world" where
  "return v w = (Ok v, w)"

definition andthen ::
  "(world \<Rightarrow> 'a result \<times> world) \<Rightarrow> ('a \<Rightarrow> world \<Rightarrow> 'b result \<times> world) \<Rightarrow>
   world \<Rightarrow> 'b result \<times> world" where
  "andthen m f w = (case m w of (Ok v, w') \<Rightarrow> f v w' | (Raise e, w') \<Rightarrow> (Raise e, w'))"

text \<open>\<^verbatim>\<open>try: m  except Exception as e: h(e)\<close>\<close>

definition try_except ::
  "(world \<Rightarrow> 'a result \<times> world) \<Rightarrow> (exn \<Rightarrow> world \<Rightarrow> 'a result \<times> world) \<Rightarrow>
   world \<Rightarrow> 'a result \<times> world" where
  "try_except m h w = (case m w of (Ok v, w') \<Rightarrow> (Ok v, w') | (Raise e, w') \<Rightarrow> h e w')"

text \<open>\<^verbatim>\<open>for x in xs: s = body(x, s)\<close>, left at the first exception.\<close>

fun for_each ::
  "'x list \<Rightarrow> ('x \<Rightarrow> 's \<Rightarrow> world \<Rightarrow> 's result \<times> world) \<Rightarrow> 's \<Rightarrow>
   world \<Rightarrow> 's result \<times> world" where
  "for_each [] body s w = (Ok s, w)"
| "for_each (x # xs) body s w =
     (case body x s w of
        (Ok s', w') \<Rightarrow> for_each xs body s' w'
      | (Raise e, w') \<Rightarrow> (Raise e, w'))"

text \<open>
  A log record keeps the level and the format string of the message, with \<^verbatim>\<open>{}\<close> in the
  place of each interpolated value.
\<close>

definition logger :: "level \<Rightarrow> string \<Rightarrow> world \<Rightarrow> unit result \<times> world" where
  "logger l msg w = (Ok (), w\<lparr>logged := logged w @ [(l, msg)]\<rparr>)"

section \<open>The collaborators\<close>

text \<open>
  A call is recorded in the trace whether it raises or not; the oracles see the trace
  as it was before the call.
\<close>

definition external ::
  "env \<Rightarrow> call \<Rightarrow> (call list \<Rightarrow> 'a) \<Rightarrow> world \<Rightarrow> 'a result \<times> world" where
  "external env c answer w =
     (case fails env (trace w) c of
        Some e \<Rightarrow> (Raise e, w\<lparr>trace := trace w @ [c]\<rparr>)
      | None \<Rightarrow> (Ok (answer (trace w)), w\<lparr>trace := trace w @ [c]\<rparr>))"

subsection \<open>\<^verbatim>\<open>proserver_service\<close>\<close>

definition get_all_live_building_arm_states ::
  "env \<Rightarrow> world \<Rightarrow> (int \<times> bool) list result \<times> world" where
  "get_all_live_building_arm_states env =
     external env GetAllLiveBuildingArmStates (live_arm_states env)"

definition get_proevents_for_building_from_db ::
  "env \<Rightarrow> int \<Rightarrow> world \<Rightarrow> device list result \<times> world" where
  "get_proevents_for_building_from_db env building_id =
     external env (GetProeventsForBuildingFromDb building_id)
       (\<lambda>tr. proevents env tr building_id)"

definition set_proevent_reactive_state_bulk ::
  "env \<Rightarrow> target list \<Rightarrow> world \<Rightarrow> bool result \<times> world" where
  "set_proevent_reactive_state_bulk env target_states =
     external env (SetProeventReactiveStateBulk target_states)
       (\<lambda>tr. bulk_ok env tr target_states)"

definition send_disarmed_axe_message :: "env \<Rightarrow> int \<Rightarrow> world \<Rightarrow> unit result \<times> world" where
  "send_disarmed_axe_message env building_id =
     external env (SendDisarmedAxeMessage building_id) (\<lambda>tr. ())"

subsection \<open>\<^verbatim>\<open>cache_service\<close>\<close>

text \<open>
  Modelled from the spec: \<^verbatim>\<open>cache_service\<close> is not among the sources. The spec gives it
  as the generic \<^verbatim>\<open>cache_get/cache_set(key)\<close> of a simple key/row store: a read answers the
  value last set for the key, \<open>None\<close> when there is none, and a write that raises stores
  nothing.
\<close>

definition get_cache_value_panel_state_cache ::
  "env \<Rightarrow> world \<Rightarrow> (string \<rightharpoonup> bool) option result \<times> world" where
  "get_cache_value_panel_state_cache env w =
     external env (GetCacheValue ''panel_state_cache'') (\<lambda>tr. panel_state_cache w) w"

definition set_cache_value_panel_state_cache ::
  "env \<Rightarrow> (string \<rightharpoonup> bool) \<Rightarrow> world \<Rightarrow> unit result \<times> world" where
  "set_cache_value_panel_state_cache env v =
     andthen (external env (SetCacheValue ''panel_state_cache'') (\<lambda>tr. ()))
       (\<lambda>u w. (Ok (), w\<lparr>panel_state_cache := Some v\<rparr>))"

definition get_cache_value_panel_armed ::
  "env \<Rightarrow> world \<Rightarrow> bool option result \<times> world" where
  "get_cache_value_panel_armed env w =
     external env (GetCacheValue ''panel_armed'') (\<lambda>tr. panel_armed w) w"

subsection \<open>\<^verbatim>\<open>sqlite_config\<close>\<close>

definition get_ignored_proevents ::
  "env \<Rightarrow> world \<Rightarrow> (int \<times> ignore_entry) list result \<times> world" where
  "get_ignored_proevents env = external env GetIgnoredProevents (ignored_proevents env)"

definition get_building_time :: "env \<Rightarrow> int \<Rightarrow> world \<Rightarrow> schedule option result \<times> world" where
  "get_building_time env building_id =
     external env (GetBuildingTime building_id) (\<lambda>tr. building_time env tr building_id)"

text \<open>
  Modelled from the spec: the snapshot table of \<^verbatim>\<open>sqlite_config\<close> is not among the
  sources. The spec gives \<^verbatim>\<open>get_snapshot(building_id) -> Optional<list<(id,state)>>\<close>,
  \<^verbatim>\<open>save_snapshot(...)\<close> and \<^verbatim>\<open>clear_snapshot(building_id)\<close> over a simple key/row store with
  at most one snapshot per building; a write that raises stores nothing.
\<close>

definition get_snapshot :: "env \<Rightarrow> int \<Rightarrow> world \<Rightarrow> target list option result \<times> world" where
  "get_snapshot env building_id w =
     external env (GetSnapshot building_id) (\<lambda>tr. snapshots w building_id) w"

definition save_snapshot :: "env \<Rightarrow> int \<Rightarrow> target list \<Rightarrow> world \<Rightarrow> unit result \<times> world" where
  "save_snapshot env building_id snapshot_data =
     andthen (external env (SaveSnapshot building_id snapshot_data) (\<lambda>tr. ()))
       (\<lambda>u w. (Ok (), w\<lparr>snapshots := (snapshots w)(building_id \<mapsto> snapshot_data)\<rparr>))"

definition clear_snapshot :: "env \<Rightarrow> int \<Rightarrow> world \<Rightarrow> unit result \<times> world" where
  "clear_snapshot env building_id =
     andthen (external env (ClearSnapshot building_id) (\<lambda>tr. ()))
       (\<lambda>u w. (Ok (), w\<lparr>snapshots := (snapshots w)(building_id := None)\<rparr>))"

section \<open>Python's \<^verbatim>\<open>str\<close> on integers\<close>

definition digit_char :: "nat \<Rightarrow> char" where
  "digit_char d = char_of (48 + d)"

fun digits :: "nat \<Rightarrow> string" where
  "digits n = (if n < 10 then [digit_char n] else digits (n div 10) @ [digit_char (n mod 10)])"

declare digits.simps [simp del]

definition str :: "int \<Rightarrow> string" where
  "str i = (if i < 0 then CHR ''-'' # digits (nat (- i)) else digits (nat i))"

section \<open>The ignore set of a building\<close>

text \<open>
  \<^verbatim>\<open>{pid for pid, data in ignored_map.items()
     if data.get("building_frk") == building_id and data.get("ignore_on_disarm")}\<close>:
  the elements of the set, in the order of the dict. The set is empty exactly when this
  list is; where the code iterates over the set, the model goes through \<open>set_iter\<close>.
\<close>

definition ignored_ids_of :: "(int \<times> ignore_entry) list \<Rightarrow> int \<Rightarrow> int list" where
  "ignored_ids_of ignored_map building_id =
     [pid. (pid, data) \<leftarrow> ignored_map, building_frk data = building_id \<and> ignore_on_disarm data]"

section \<open>The reconciliation tick: \<^verbatim>\<open>manage_proevents_on_panel_state_change\<close>\<close>

text \<open>
  The body of the loop \<^verbatim>\<open>for building_id, is_armed in live_states.items()\<close> of the second
  definition (lines 140 to 196), the one in force. \<open>cached_states\<close> is the dict read
  from the cache, \<open>new_cached_states\<close> its copy, which the loop updates under the key
  \<^verbatim>\<open>str(building_id)\<close>.
\<close>

definition panel_state_change_iteration ::
  "env \<Rightarrow> (string \<rightharpoonup> bool) \<Rightarrow> int \<times> bool \<Rightarrow> (string \<rightharpoonup> bool) \<Rightarrow>
   world \<Rightarrow> (string \<rightharpoonup> bool) result \<times> world" where
  "panel_state_change_iteration env cached_states item new_cached_states =
     (case item of (building_id, is_armed) \<Rightarrow>
      let prev_state = cached_states (str building_id) in
      andthen (logger INFO ''[DEBUG] Building {}: current={}, previous={}'') (\<lambda>u.
      case prev_state of
        None \<Rightarrow> return (new_cached_states(str building_id \<mapsto> is_armed))
      | Some prev \<Rightarrow>
          if prev = is_armed then return new_cached_states
          else
          andthen (logger INFO ''[Building {}] Panel state changed -> {}'') (\<lambda>u.
          andthen (get_proevents_for_building_from_db env building_id) (\<lambda>all_proevents.
          if all_proevents = [] then
            andthen (logger WARNING ''[Building {}] No ProEvents found in DB.'') (\<lambda>u.
            return (new_cached_states(str building_id \<mapsto> is_armed)))
          else
            andthen (get_ignored_proevents env) (\<lambda>ignored_map.
            let ignored_ids = ignored_ids_of ignored_map building_id in
            if is_armed then
              andthen
                (if ignored_ids \<noteq> [] then
                   andthen
                     (set_proevent_reactive_state_bulk env
                        (map (\<lambda>pid. (pid, 0)) (set_iter env ignored_ids)))
                     (\<lambda>success.
                        if success
                        then logger INFO
                            ''[Building {}] Panel ARMED -> {} previously ignored ProEvents set Reactive.''
                        else logger ERROR
                            ''[Building {}] Failed to reactivate previously ignored ProEvents.'')
                 else logger INFO
                     ''[Building {}] Panel ARMED -> No previously ignored ProEvents to change.'')
                (\<lambda>u. return (new_cached_states(str building_id \<mapsto> is_armed)))
            else
              andthen
                (if \<not> is_armed \<and> ignored_ids \<noteq> [] then
                   andthen
                     (set_proevent_reactive_state_bulk env
                        (map (\<lambda>pid. (pid, 1)) (set_iter env ignored_ids)))
                     (\<lambda>success.
                        if success
                        then logger INFO
                            ''[Building {}] Panel DISARMED -> {} selected ProEvents set Non-Reactive.''
                        else logger ERROR ''[Building {}] Failed to disarm selected ProEvents.'')
                 else logger INFO
                     ''[Building {}] Panel DISARMED -> No ignored ProEvents to change.'')
                (\<lambda>u. return (new_cached_states(str building_id \<mapsto> is_armed))))))))"

text \<open>The \<^verbatim>\<open>try\<close> block of the second definition (lines 136 to 199).\<close>

definition manage_proevents_on_panel_state_change_try ::
  "env \<Rightarrow> world \<Rightarrow> unit result \<times> world" where
  "manage_proevents_on_panel_state_change_try env =
     andthen (get_all_live_building_arm_states env) (\<lambda>live_states.
     andthen (get_cache_value_panel_state_cache env) (\<lambda>cached.
     let cached_states = (case cached of None \<Rightarrow> Map.empty | Some m \<Rightarrow> m);
         new_cached_states = cached_states
     in
     andthen
       (for_each live_states (panel_state_change_iteration env cached_states) new_cached_states)
       (\<lambda>new_cached_states.
     set_cache_value_panel_state_cache env new_cached_states)))"

definition manage_proevents_on_panel_state_change :: "env \<Rightarrow> world \<Rightarrow> unit result \<times> world" where
  "manage_proevents_on_panel_state_change env =
     try_except (manage_proevents_on_panel_state_change_try env)
       (\<lambda>e. logger ERROR ''Error in manage_proevents_on_panel_state_change: {}'')"

subsection \<open>The first definition, which the second replaces\<close>

text \<open>
  Lines 63 to 125: the same function name, bound first and rebound by the definition
  above when the module is loaded.
\<close>

definition panel_state_change_iteration_shadowed ::
  "env \<Rightarrow> (string \<rightharpoonup> bool) \<Rightarrow> int \<times> bool \<Rightarrow> (string \<rightharpoonup> bool) \<Rightarrow>
   world \<Rightarrow> (string \<rightharpoonup> bool) result \<times> world" where
  "panel_state_change_iteration_shadowed env cached_states item new_cached_states =
     (case item of (building_id, is_armed) \<Rightarrow>
      let prev_state = cached_states (str building_id) in
      (case prev_state of
        None \<Rightarrow> return (new_cached_states(str building_id \<mapsto> is_armed))
      | Some prev \<Rightarrow>
          if prev = is_armed then return new_cached_states
          else
          andthen (logger INFO ''[Building {}] Panel state changed -> {}'') (\<lambda>u.
          andthen (get_proevents_for_building_from_db env building_id) (\<lambda>all_proevents.
          if all_proevents = [] then
            andthen (logger WARNING ''[Building {}] No ProEvents found in DB.'') (\<lambda>u.
            return (new_cached_states(str building_id \<mapsto> is_armed)))
          else
            andthen (get_ignored_proevents env) (\<lambda>ignored_map.
            let ignored_ids = ignored_ids_of ignored_map building_id in
            if is_armed then
              andthen
                (if ignored_ids \<noteq> [] then
                   andthen
                     (set_proevent_reactive_state_bulk env
                        (map (\<lambda>pid. (pid, 0)) (set_iter env ignored_ids)))
                     (\<lambda>success.
                        if success
                        then logger INFO
                            ''[Building {}] Panel ARMED -> {} previously ignored ProEvents set Reactive.''
                        else logger ERROR
                            ''[Building {}] Failed to reactivate previously ignored ProEvents.'')
                 else logger INFO
                     ''[Building {}] Panel ARMED -> No previously ignored ProEvents to change.'')
                (\<lambda>u. return (new_cached_states(str building_id \<mapsto> is_armed)))
            else
              andthen
                (if \<not> is_armed \<and> ignored_ids \<noteq> [] then
                   andthen
                     (set_proevent_reactive_state_bulk env
                        (map (\<lambda>pid. (pid, 1)) (set_iter env ignored_ids)))
                     (\<lambda>success.
                        if success
                        then logger INFO
                            ''[Building {}] Panel DISARMED -> {} selected ProEvents set Non-Reactive.''
                        else logger ERROR ''[Building {}] Failed to disarm selected ProEvents.'')
                 else logger INFO
                     ''[Building {}] Panel DISARMED -> No ignored ProEvents to change.'')
                (\<lambda>u. return (new_cached_states(str building_id \<mapsto> is_armed))))))))"

definition manage_proevents_on_panel_state_change_shadowed ::
  "env \<Rightarrow> world \<Rightarrow> unit result \<times> world" where
  "manage_proevents_on_panel_state_change_shadowed env =
     try_except
       (andthen (get_all_live_building_arm_states env) (\<lambda>live_states.
        andthen (get_cache_value_panel_state_cache env) (\<lambda>cached.
        let cached_states = (case cached of None \<Rightarrow> Map.empty | Some m \<Rightarrow> m);
            new_cached_states = cached_states
        in
        andthen
          (for_each live_states (panel_state_change_iteration_shadowed env cached_states)
             new_cached_states)
          (\<lambda>new_cached_states.
        set_cache_value_panel_state_cache env new_cached_states))))
       (\<lambda>e. logger ERROR ''Error in manage_proevents_on_panel_state_change: {}'')"

section \<open>The scheduled alert check: \<^verbatim>\<open>check_and_manage_scheduled_states\<close>\<close>

text \<open>\<^verbatim>\<open>datetime.now(tz).strftime("%H:%M")\<close>: two digits each, zero padded.\<close>

definition pad2 :: "nat \<Rightarrow> string" where
  "pad2 n = [digit_char (n div 10), digit_char (n mod 10)]"

definition strftime_HM :: "datetime \<Rightarrow> string" where
  "strftime_HM t = pad2 (hour t) @ '':'' @ pad2 (minute t)"

text \<open>
  The body of the loop (lines 217 to 230). \<^verbatim>\<open>(schedule.get("start_time") or "20:00")[:5]\<close>
  falls back to \<^verbatim>\<open>"20:00"\<close> on a missing or empty value and keeps the first five characters.
\<close>

definition scheduled_states_iteration ::
  "env \<Rightarrow> string \<Rightarrow> int \<times> bool \<Rightarrow> unit \<Rightarrow> world \<Rightarrow> unit result \<times> world" where
  "scheduled_states_iteration env current_time item u0 =
     (case item of (building_id, is_armed) \<Rightarrow>
      andthen (get_building_time env building_id) (\<lambda>schedule.
      case schedule of
        None \<Rightarrow> return ()
      | Some sched \<Rightarrow>
          let start =
                take 5 (case start_time sched of
                          None \<Rightarrow> ''20:00''
                        | Some t \<Rightarrow> if t = [] then ''20:00'' else t)
          in
          if current_time \<noteq> start then return ()
          else if is_armed then logger INFO
              ''[Building {}] Panel ARMED at start time {}. No alert sent.''
          else
            andthen (logger WARNING
                ''[Building {}] Panel DISARMED at start time {}. Sending AXE alert.'') (\<lambda>u.
            send_disarmed_axe_message env building_id)))"

text \<open>The \<^verbatim>\<open>try\<close> block (lines 212 to 230); the clock is read first.\<close>

definition check_and_manage_scheduled_states_try :: "env \<Rightarrow> world \<Rightarrow> unit result \<times> world" where
  "check_and_manage_scheduled_states_try env w =
     (let current_time = strftime_HM (clock env (trace w)) in
      andthen (get_all_live_building_arm_states env) (\<lambda>live_building_arm_states.
      for_each live_building_arm_states (scheduled_states_iteration env current_time) ()) w)"

definition check_and_manage_scheduled_states :: "env \<Rightarrow> world \<Rightarrow> unit result \<times> world" where
  "check_and_manage_scheduled_states env =
     try_except (check_and_manage_scheduled_states_try env)
       (\<lambda>e. logger ERROR ''Error in scheduled check_and_manage_scheduled_states: {}'')"

section \<open>Snapshots and the manual path\<close>

definition take_snapshot_and_apply_schedule :: "env \<Rightarrow> int \<Rightarrow> world \<Rightarrow> unit result \<times> world" where
  "take_snapshot_and_apply_schedule env building_id =
     try_except
       (andthen (get_proevents_for_building_from_db env building_id) (\<lambda>all_devices_from_db.
        if all_devices_from_db = [] then
          logger WARNING ''Building {}: No devices found in ProServer DB to snapshot.''
        else
          let snapshot_data = map (\<lambda>dev. (dev_id dev, dev_state dev)) all_devices_from_db in
          andthen (save_snapshot env building_id snapshot_data) (\<lambda>u.
          andthen (get_ignored_proevents env) (\<lambda>ignored_map.
          let ignored_ids = ignored_ids_of ignored_map building_id;
              target_states =
                map (\<lambda>device.
                       let device_id = fst device in
                       if device_id \<in> set ignored_ids then (device_id, 1) else (device_id, 0))
                    snapshot_data
          in
          andthen (logger INFO
              ''[Building {}]: Snapshot taken. Setting {} devices to Non-Reactive (1) and {} to Reactive (0).'') (\<lambda>u.
          andthen (set_proevent_reactive_state_bulk env target_states) (\<lambda>success.
          return ()))))))
       (\<lambda>e. logger ERROR ''Failed to take snapshot for building {}: {}'')"

text \<open>\<^verbatim>\<open>_evaluate_building_state\<close> (lines 321 to 339); it has no \<^verbatim>\<open>try\<close> of its own.\<close>

definition evaluate_building_state :: "env \<Rightarrow> int \<Rightarrow> world \<Rightarrow> unit result \<times> world" where
  "evaluate_building_state env building_id =
     andthen (get_building_time env building_id) (\<lambda>schedule.
     if schedule = None then return ()
     else
       andthen (get_snapshot env building_id) (\<lambda>snapshot.
       let snapshot_exists = (snapshot \<noteq> None) in
       if snapshot_exists then logger INFO
           ''[Building {}]: Snapshot exists. Maintaining scheduled state.''
       else
         andthen (logger INFO ''[Building {}]: Taking snapshot and applying schedule...'') (\<lambda>u.
         take_snapshot_and_apply_schedule env building_id)))"

definition revert_snapshot :: "env \<Rightarrow> int \<Rightarrow> target list \<Rightarrow> world \<Rightarrow> unit result \<times> world" where
  "revert_snapshot env building_id snapshot_data =
     try_except
       (andthen (logger INFO ''[Building {}]: Reverting {} devices to their original states.'') (\<lambda>u.
        andthen (set_proevent_reactive_state_bulk env snapshot_data) (\<lambda>success.
        clear_snapshot env building_id)))
       (\<lambda>e. logger ERROR ''Failed to revert snapshot for building {}: {}'')"

text \<open>The \<^verbatim>\<open>except\<close> clause logs and raises the exception again.\<close>

definition reevaluate_building_state :: "env \<Rightarrow> int \<Rightarrow> world \<Rightarrow> unit result \<times> world" where
  "reevaluate_building_state env building_id =
     try_except
       (andthen (get_cache_value_panel_armed env) (\<lambda>is_panel_armed.
        if is_panel_armed = Some True then
          logger WARNING ''Manual re-evaluation for building {} skipped: Panel is ARMED.''
        else
          andthen (logger INFO ''Manual re-evaluation triggered for building {}.'') (\<lambda>u.
          evaluate_building_state env building_id)))
       (\<lambda>e. andthen (logger ERROR
           ''Error in reevaluate_building_state (Building {}): {}'') (\<lambda>u w. (Raise e, w)))"

section \<open>What a run is observed by\<close>

text \<open>The payloads of the bulk writes in a trace, in the order they were issued.\<close>

fun bulk_writes :: "call list \<Rightarrow> target list list" where
  "bulk_writes [] = []"
| "bulk_writes (SetProeventReactiveStateBulk ts # cs) = ts # bulk_writes cs"
| "bulk_writes (c # cs) = bulk_writes cs"

text \<open>
  The cached arm state of a building: \<open>None\<close> is Unknown (never observed), \<open>Some True\<close>
  Armed, \<open>Some False\<close> Disarmed.
\<close>

definition cached_arm_state :: "world \<Rightarrow> int \<Rightarrow> bool option" where
  "cached_arm_state w building_id =
     (case panel_state_cache w of None \<Rightarrow> None | Some m \<Rightarrow> m (str building_id))"

text \<open>The calls issued between two states of one run.\<close>

definition calls_since :: "world \<Rightarrow> world \<Rightarrow> call list" where
  "calls_since w w' = drop (length (trace w)) (trace w')"


text \<open>
  The same collaborators, with one building left out of every live read. It serves to
  say that a building causes no call: the tick then issues the calls it issues without it.
\<close>

definition without_building :: "int \<Rightarrow> env \<Rightarrow> env" where
  "without_building building_id env =
     env\<lparr>live_arm_states :=
           (\<lambda>tr. filter (\<lambda>item. fst item \<noteq> building_id) (live_arm_states env tr))\<rparr>"

text \<open>
  The text \<^verbatim>\<open>HH:MM\<close> of a time of day, written from the spec's data model (a check time
  is \<^verbatim>\<open>HH:MM\<close>), to be compared with what the code prints and cuts.
\<close>

definition hhmm :: "nat \<Rightarrow> nat \<Rightarrow> string" where
  "hhmm h m =
     [char_of (48 + h div 10), char_of (48 + h mod 10), CHR '':'',
      char_of (48 + m div 10), char_of (48 + m mod 10)]"

text \<open>Reading a decimal numeral back, to show that \<open>str\<close> never maps two ids to one key.\<close>

definition undigits :: "string \<Rightarrow> nat" where
  "undigits s = foldl (\<lambda>acc c. 10 * acc + (of_char c - 48)) 0 s"

section \<open>Concrete scenarios\<close>

text \<open>
  One building, number 1, with devices 3, 5 and 7. Devices 3 and 7 are on its ignore list
  with \<^verbatim>\<open>ignore_on_disarm\<close> set, device 5 is listed with the flag off, and device 9 belongs
  to the ignore list of another building. The check time of building 1 is 20:00 and the
  clock reads 20:00:30. No call raises; the bulk write reports \<open>write_ok\<close>.
\<close>

definition spec_env :: "bool \<Rightarrow> bool \<Rightarrow> env" where
  "spec_env is_armed write_ok =
     \<lparr>fails = (\<lambda>tr c. None),
      live_arm_states = (\<lambda>tr. [(1, is_armed)]),
      proevents = (\<lambda>tr b.
         if b = 1
         then [\<lparr>dev_id = 3, dev_state = 1\<rparr>, \<lparr>dev_id = 5, dev_state = 0\<rparr>,
               \<lparr>dev_id = 7, dev_state = 1\<rparr>]
         else []),
      bulk_ok = (\<lambda>tr ts. write_ok),
      ignored_proevents = (\<lambda>tr.
         [(3, \<lparr>building_frk = 1, ignore_on_arm = False, ignore_on_disarm = True\<rparr>),
          (5, \<lparr>building_frk = 1, ignore_on_arm = False, ignore_on_disarm = False\<rparr>),
          (7, \<lparr>building_frk = 1, ignore_on_arm = False, ignore_on_disarm = True\<rparr>),
          (9, \<lparr>building_frk = 2, ignore_on_arm = False, ignore_on_disarm = True\<rparr>)]),
      building_time = (\<lambda>tr b. if b = 1 then Some \<lparr>start_time = Some ''20:00''\<rparr> else None),
      clock = (\<lambda>tr. \<lparr>hour = 20, minute = 0, second = 30\<rparr>),
      set_iter = remdups\<rparr>"

text \<open>The same with the clock five minutes later.\<close>

definition late_env :: "bool \<Rightarrow> bool \<Rightarrow> env" where
  "late_env is_armed write_ok =
     (spec_env is_armed write_ok)\<lparr>clock := (\<lambda>tr. \<lparr>hour = 20, minute = 5, second = 0\<rparr>)\<rparr>"

text \<open>A fresh state whose cache holds the given arm state for building 1.\<close>

definition spec_world :: "bool option \<Rightarrow> world" where
  "spec_world cached =
     \<lparr>trace = [], logged = [],
      panel_state_cache = (case cached of None \<Rightarrow> None | Some c \<Rightarrow> Some [''1'' \<mapsto> c]),
      panel_armed = None, snapshots = Map.empty\<rparr>"

text \<open>
  The same building with no device in the live system: the device read answers the
  empty list.
\<close>

definition no_device_env :: env where
  "no_device_env = (spec_env False True)\<lparr>proevents := (\<lambda>tr b. [])\<rparr>"


text \<open>
  Two buildings, both cached as Disarmed and both live Armed; the device read of
  building 2 raises.
\<close>

definition failing_read_env :: env where
  "failing_read_env =
     (spec_env True True)
       \<lparr>fails := (\<lambda>tr c.
          if c = GetProeventsForBuildingFromDb 2 then Some (Exn ''timeout'') else None),
        live_arm_states := (\<lambda>tr. [(1, True), (2, True)])\<rparr>"

definition two_building_world :: world where
  "two_building_world =
     \<lparr>trace = [], logged = [],
      panel_state_cache = Some [''1'' \<mapsto> False, ''2'' \<mapsto> False],
      panel_armed = None, snapshots = Map.empty\<rparr>"

text \<open>
  Three buildings. Building 2 has devices 3, 5 and 7, of which 3 and 7 are on its ignore
  list with \<^verbatim>\<open>ignore_on_disarm\<close> set and 5 is listed with the flag off; building 1 has
  device 4 and building 3 has device 9, both on the ignore list of their building. Live,
  building 1 is Armed, building 3 is Disarmed and building 2 is as the parameter says; in
  the cache each building has the opposite state, so the tick sees three edges. No call
  raises.
\<close>

definition campus_env :: "bool \<Rightarrow> env" where
  "campus_env is_armed =
     \<lparr>fails = (\<lambda>tr c. None),
      live_arm_states = (\<lambda>tr. [(1, True), (2, is_armed), (3, False)]),
      proevents = (\<lambda>tr b.
         if b = 1 then [\<lparr>dev_id = 4, dev_state = 1\<rparr>]
         else if b = 2
         then [\<lparr>dev_id = 3, dev_state = 1\<rparr>, \<lparr>dev_id = 5, dev_state = 0\<rparr>,
               \<lparr>dev_id = 7, dev_state = 1\<rparr>]
         else if b = 3 then [\<lparr>dev_id = 9, dev_state = 0\<rparr>]
         else []),
      bulk_ok = (\<lambda>tr ts. True),
      ignored_proevents = (\<lambda>tr.
         [(3, \<lparr>building_frk = 2, ignore_on_arm = False, ignore_on_disarm = True\<rparr>),
          (4, \<lparr>building_frk = 1, ignore_on_arm = False, ignore_on_disarm = True\<rparr>),
          (5, \<lparr>building_frk = 2, ignore_on_arm = False, ignore_on_disarm = False\<rparr>),
          (7, \<lparr>building_frk = 2, ignore_on_arm = False, ignore_on_disarm = True\<rparr>),
          (9, \<lparr>building_frk = 3, ignore_on_arm = False, ignore_on_disarm = True\<rparr>)]),
      building_time = (\<lambda>tr b. Some \<lparr>start_time = Some ''20:00''\<rparr>),
      clock = (\<lambda>tr. \<lparr>hour = 20, minute = 0, second = 30\<rparr>),
      set_iter = remdups\<rparr>"



text \<open>The campus with building 1 never observed: its key is not in the cache.\<close>

definition campus_cold_world :: world where
  "campus_cold_world =
     \<lparr>trace = [], logged = [],
      panel_state_cache = Some [''2'' \<mapsto> False, ''3'' \<mapsto> True],
      panel_armed = None, snapshots = Map.empty\<rparr>"

text \<open>
  Two buildings with building 1 never observed and building 2 cached as Disarmed; it is
  the state for \<open>failing_read_env\<close>, where both are live Armed and the device read of
  building 2 raises.
\<close>

definition cold_then_edge_world :: world where
  "cold_then_edge_world =
     \<lparr>trace = [], logged = [],
      panel_state_cache = Some [''2'' \<mapsto> False],
      panel_armed = None, snapshots = Map.empty\<rparr>"

text \<open>
  Two Disarmed buildings with check time 20:00, at 20:00:30, when sending the alert for
  building 1 raises.
\<close>

definition alert_raises_env :: env where
  "alert_raises_env =
     (spec_env False True)
       \<lparr>fails := (\<lambda>tr c.
          if c = SendDisarmedAxeMessage 1 then Some (Exn ''timeout'') else None),
        live_arm_states := (\<lambda>tr. [(1, False), (2, False)]),
        building_time := (\<lambda>tr b. Some \<lparr>start_time = Some ''20:00''\<rparr>)\<rparr>"

text \<open>The clock one hour after the check time, at the same minute.\<close>

definition next_hour_env :: "bool \<Rightarrow> bool \<Rightarrow> env" where
  "next_hour_env is_armed write_ok =
     (spec_env is_armed write_ok)\<lparr>clock := (\<lambda>tr. \<lparr>hour = 21, minute = 0, second = 30\<rparr>)\<rparr>"

section \<open>Comparing two runs up to the debug records\<close>

text \<open>
  The second definition of the tick writes one log record per building that the first
  does not. Two states are the same but for these records when they agree on the trace,
  on the cache, on the snapshots and on every other log record.
\<close>

definition debug_record :: "level \<times> string" where
  "debug_record = (INFO, ''[DEBUG] Building {}: current={}, previous={}'')"

definition undebug :: "(level \<times> string) list \<Rightarrow> (level \<times> string) list" where
  "undebug records = filter (\<lambda>r. r \<noteq> debug_record) records"

definition same_but_debug :: "world \<Rightarrow> world \<Rightarrow> bool" where
  "same_but_debug w w' \<longleftrightarrow>
     trace w = trace w' \<and> panel_state_cache w = panel_state_cache w' \<and>
     panel_armed w = panel_armed w' \<and> snapshots w = snapshots w' \<and>
     undebug (logged w) = undebug (logged w')"

text \<open>Two computations that take such states to equal results and such states.\<close>

definition related ::
  "(world \<Rightarrow> 'a result \<times> world) \<Rightarrow> (world \<Rightarrow> 'a result \<times> world) \<Rightarrow> bool" where
  "related m m' \<longleftrightarrow>
     (\<forall>w w'. same_but_debug w w' \<longrightarrow>
        fst (m w) = fst (m' w') \<and> same_but_debug (snd (m w)) (snd (m' w')))"

text \<open>
  Two results with the same outcome: both return, or both raise the same exception. Two
  computations agree when they take states that are the same but for the debug records
  to the same outcome and to such states, whatever value they return.
\<close>

definition same_outcome :: "'a result \<Rightarrow> 'b result \<Rightarrow> bool" where
  "same_outcome r r' =
     (case r of
        Ok v \<Rightarrow> (case r' of Ok v' \<Rightarrow> True | Raise e' \<Rightarrow> False)
      | Raise e \<Rightarrow> (case r' of Ok v' \<Rightarrow> False | Raise e' \<Rightarrow> e = e'))"

definition agree ::
  "(world \<Rightarrow> 'a result \<times> world) \<Rightarrow> (world \<Rightarrow> 'b result \<times> world) \<Rightarrow> bool" where
  "agree m m' \<longleftrightarrow>
     (\<forall>w w'. same_but_debug w w' \<longrightarrow>
        same_outcome (fst (m w)) (fst (m' w')) \<and> same_but_debug (snd (m w)) (snd (m' w')))"

section \<open>Keys of the cache: \<open>str\<close> is injective\<close>

lemma undigits_digit_char: "d < 10 \<Longrightarrow> (of_char (digit_char d) :: nat) - 48 = d"
  by (simp add: digit_char_def)

lemma undigits_digits: "undigits (digits n) = n"
proof (induction n rule: digits.induct)
  case (1 n)
  show ?case
  proof (cases "n < 10")
    case True
    then show ?thesis
      by (simp add: digits.simps [of n] undigits_def undigits_digit_char)
  next
    case False
    then have ih: "undigits (digits (n div 10)) = n div 10"
      using "1" by simp
    have "undigits (digits n) =
            10 * undigits (digits (n div 10)) + (of_char (digit_char (n mod 10)) - 48)"
      using False by (simp add: digits.simps [of n] undigits_def)
    then show ?thesis
      by (simp add: ih undigits_digit_char)
  qed
qed

lemma digits_inj: "digits m = digits n \<Longrightarrow> m = n"
  by (metis undigits_digits)

lemma digit_char_not_minus: "d < 10 \<Longrightarrow> digit_char d \<noteq> CHR ''-''"
proof
  assume d: "d < 10" and "digit_char d = CHR ''-''"
  then have "(of_char (digit_char d) :: nat) = of_char (CHR ''-'')" by simp
  with d show False
    by (simp add: digit_char_def)
qed

lemma digits_nonempty: "digits n \<noteq> []"
  by (subst digits.simps) simp

lemma hd_digits: "hd (digits n) \<noteq> CHR ''-''"
proof (induction n rule: digits.induct)
  case (1 n)
  show ?case
  proof (cases "n < 10")
    case True
    then show ?thesis
      by (simp add: digits.simps [of n] digit_char_not_minus)
  next
    case False
    then show ?thesis
      using "1" by (simp add: digits.simps [of n] digits_nonempty)
  qed
qed

lemma str_inj: "str i = str j \<Longrightarrow> i = j"
proof -
  assume eq: "str i = str j"
  have neg: "CHR ''-'' # digits m \<noteq> digits n" for m n
    using hd_digits [of n] by (metis list.sel(1))
  show ?thesis
  proof (cases "i < 0")
    case True
    note i = this
    show ?thesis
    proof (cases "j < 0")
      case True
      with i eq have "digits (nat (- i)) = digits (nat (- j))" by (simp add: str_def)
      then have "nat (- i) = nat (- j)" by (rule digits_inj)
      with i True show ?thesis by simp
    next
      case False
      with i eq neg show ?thesis by (simp add: str_def)
    qed
  next
    case False
    note i = this
    show ?thesis
    proof (cases "j < 0")
      case True
      with i eq neg [of "nat (- j)" "nat i"] show ?thesis by (simp add: str_def)
    next
      case False
      with i eq have "digits (nat i) = digits (nat j)" by (simp add: str_def)
      then have "nat i = nat j" by (rule digits_inj)
      with i False show ?thesis by simp
    qed
  qed
qed

section \<open>Unfolding the control flow\<close>

lemmas flow_defs = return_def andthen_def try_except_def logger_def external_def

lemmas collaborator_defs =
  get_all_live_building_arm_states_def get_proevents_for_building_from_db_def
  set_proevent_reactive_state_bulk_def send_disarmed_axe_message_def
  get_cache_value_panel_state_cache_def set_cache_value_panel_state_cache_def
  get_cache_value_panel_armed_def get_ignored_proevents_def get_building_time_def
  get_snapshot_def save_snapshot_def clear_snapshot_def

lemmas run_defs =
  manage_proevents_on_panel_state_change_def manage_proevents_on_panel_state_change_try_def
  panel_state_change_iteration_def ignored_ids_of_def flow_defs collaborator_defs Let_def

lemma bulk_writes_append: "bulk_writes (xs @ ys) = bulk_writes xs @ bulk_writes ys"
  by (induction xs rule: bulk_writes.induct) simp_all

lemma str_1: "str 1 = ''1''"
  by code_simp

section \<open>The loop of the tick\<close>

lemma iteration_result:
  assumes "panel_state_change_iteration env cached_states (b, a) nc w = (Ok nc', w')"
  shows "nc' = nc(str b \<mapsto> a) \<or> (nc' = nc \<and> cached_states (str b) = Some a)"
  using assms
  by (auto simp add: panel_state_change_iteration_def flow_defs collaborator_defs Let_def
        split: option.splits if_splits)

lemma iteration_cache_untouched:
  "panel_state_cache (snd (panel_state_change_iteration env cached_states item nc w))
      = panel_state_cache w"
  by (cases item)
     (auto simp add: panel_state_change_iteration_def flow_defs collaborator_defs Let_def
        split: option.splits if_splits)

lemma iteration_calls:
  "\<exists>calls. trace (snd (panel_state_change_iteration env cached_states item nc w)) = trace w @ calls
      \<and> (\<forall>k. SetCacheValue k \<notin> set calls)"
  by (cases item)
     (auto simp add: panel_state_change_iteration_def flow_defs collaborator_defs Let_def
        split: option.splits if_splits)

lemma iteration_no_edge:
  assumes "cached_states (str b) = Some a"
  shows "panel_state_change_iteration env cached_states (b, a) nc w =
           (Ok nc, w\<lparr>logged := logged w @
               [(INFO, ''[DEBUG] Building {}: current={}, previous={}'')]\<rparr>)"
  using assms by (simp add: panel_state_change_iteration_def flow_defs)

lemma loop_no_edge:
  assumes "\<forall>(b, a) \<in> set live. cached_states (str b) = Some a"
  shows "trace (snd (for_each live (panel_state_change_iteration env cached_states) nc w))
      = trace w"
  using assms
proof (induction live arbitrary: w)
  case Nil
  then show ?case by simp
next
  case (Cons x live)
  obtain b a where x: "x = (b, a)" by (cases x)
  with Cons.prems have "cached_states (str b) = Some a" by simp
  then show ?case
    using Cons.IH Cons.prems by (simp add: x iteration_no_edge)
qed

lemma loop_cache_untouched:
  "panel_state_cache (snd (for_each live (panel_state_change_iteration env cached_states) nc w))
      = panel_state_cache w"
proof (induction live arbitrary: nc w)
  case Nil
  then show ?case by simp
next
  case (Cons x live)
  obtain r w1 where step: "panel_state_change_iteration env cached_states x nc w = (r, w1)"
    by (cases "panel_state_change_iteration env cached_states x nc w")
  have w1: "panel_state_cache w1 = panel_state_cache w"
    using iteration_cache_untouched [of env cached_states x nc w] step by simp
  show ?case
    using Cons.IH w1 by (cases r) (simp_all add: step)
qed

lemma loop_calls:
  "\<exists>calls. trace (snd (for_each live (panel_state_change_iteration env cached_states) nc w))
      = trace w @ calls
      \<and> (\<forall>k. SetCacheValue k \<notin> set calls)"
proof (induction live arbitrary: nc w)
  case Nil
  then show ?case by simp
next
  case (Cons x live)
  obtain r w1 where step: "panel_state_change_iteration env cached_states x nc w = (r, w1)"
    by (cases "panel_state_change_iteration env cached_states x nc w")
  obtain c1 where c1: "trace w1 = trace w @ c1" "\<forall>k. SetCacheValue k \<notin> set c1"
    using iteration_calls [of env cached_states x nc w] step by auto
  show ?case
  proof (cases r)
    case (Ok nc1)
    obtain c2 where c2:
      "trace (snd (for_each live (panel_state_change_iteration env cached_states) nc1 w1))
          = trace w1 @ c2"
      "\<forall>k. SetCacheValue k \<notin> set c2"
      using Cons.IH [of nc1 w1] by auto
    have "trace (snd (for_each (x # live) (panel_state_change_iteration env cached_states) nc w))
            = trace w @ (c1 @ c2)"
      using c1 c2 by (simp add: step Ok)
    moreover have "\<forall>k. SetCacheValue k \<notin> set (c1 @ c2)"
      using c1 c2 by simp
    ultimately show ?thesis by blast
  next
    case (Raise e)
    then show ?thesis using c1 by (simp add: step)
  qed
qed

lemma loop_frame:
  assumes "for_each live (panel_state_change_iteration env cached_states) nc w = (Ok nc', w')"
    and "\<forall>(b, a) \<in> set live. str b \<noteq> k"
  shows "nc' k = nc k"
  using assms
proof (induction live arbitrary: nc w)
  case Nil
  then show ?case by simp
next
  case (Cons x live)
  obtain b a where x: "x = (b, a)" by (cases x)
  obtain r w1 where step: "panel_state_change_iteration env cached_states (b, a) nc w = (r, w1)"
    by (cases "panel_state_change_iteration env cached_states (b, a) nc w")
  from Cons.prems(1) obtain nc1 where r: "r = Ok nc1"
    by (cases r) (simp_all add: x step)
  have rest: "for_each live (panel_state_change_iteration env cached_states) nc1 w1 = (Ok nc', w')"
    using Cons.prems(1) by (simp add: x step r)
  have "nc1 = nc(str b \<mapsto> a) \<or> (nc1 = nc \<and> cached_states (str b) = Some a)"
    using iteration_result step r by blast
  moreover have "str b \<noteq> k"
    using Cons.prems(2) by (simp add: x)
  ultimately have "nc1 k = nc k" by auto
  moreover have "nc' k = nc1 k"
    using Cons.IH [OF rest] Cons.prems(2) by simp
  ultimately show ?case by simp
qed

lemma loop_result:
  assumes "for_each live (panel_state_change_iteration env cached_states) nc w = (Ok nc', w')"
    and "distinct (map fst live)"
    and "\<forall>(b, a) \<in> set live. nc (str b) = cached_states (str b)"
  shows "\<forall>(b, a) \<in> set live. nc' (str b) = Some a"
  using assms
proof (induction live arbitrary: nc w)
  case Nil
  then show ?case by simp
next
  case (Cons x live)
  obtain b a where x: "x = (b, a)" by (cases x)
  obtain r w1 where step: "panel_state_change_iteration env cached_states (b, a) nc w = (r, w1)"
    by (cases "panel_state_change_iteration env cached_states (b, a) nc w")
  from Cons.prems(1) obtain nc1 where r: "r = Ok nc1"
    by (cases r) (simp_all add: x step)
  have rest: "for_each live (panel_state_change_iteration env cached_states) nc1 w1 = (Ok nc', w')"
    using Cons.prems(1) by (simp add: x step r)
  have nc1: "nc1 = nc(str b \<mapsto> a) \<or> (nc1 = nc \<and> cached_states (str b) = Some a)"
    using iteration_result step r by blast
  have fresh: "\<forall>(b', a') \<in> set live. str b' \<noteq> str b"
  proof (clarify)
    fix b' a'
    assume "(b', a') \<in> set live" and "str b' = str b"
    then have "b \<in> fst ` set live" by (force dest: str_inj)
    with Cons.prems(2) show False by (simp add: x)
  qed
  have agree: "\<forall>(b', a') \<in> set live. nc1 (str b') = cached_states (str b')"
    using nc1 fresh Cons.prems(3) by auto
  have tail: "\<forall>(b', a') \<in> set live. nc' (str b') = Some a'"
    using Cons.IH [OF rest _ agree] Cons.prems(2) by simp
  have "nc1 (str b) = Some a"
    using nc1 Cons.prems(3) by (auto simp add: x)
  moreover have "nc' (str b) = nc1 (str b)"
    using loop_frame [OF rest fresh] .
  ultimately show ?case
    using tail by (simp add: x)
qed

lemma iteration_no_alert:
  "\<exists>calls. trace (snd (panel_state_change_iteration env cached_states item nc w)) = trace w @ calls
      \<and> (\<forall>k. SendDisarmedAxeMessage k \<notin> set calls)"
  by (cases item)
     (auto simp add: panel_state_change_iteration_def flow_defs collaborator_defs Let_def
        split: option.splits if_splits)

lemma loop_no_alert:
  "\<exists>calls. trace (snd (for_each live (panel_state_change_iteration env cached_states) nc w))
              = trace w @ calls
      \<and> (\<forall>k. SendDisarmedAxeMessage k \<notin> set calls)"
proof (induction live arbitrary: nc w)
  case Nil
  then show ?case by simp
next
  case (Cons x live)
  obtain r w1 where step: "panel_state_change_iteration env cached_states x nc w = (r, w1)"
    by (cases "panel_state_change_iteration env cached_states x nc w")
  obtain c1 where c1: "trace w1 = trace w @ c1" "\<forall>k. SendDisarmedAxeMessage k \<notin> set c1"
    using iteration_no_alert [of env cached_states x nc w] step by auto
  show ?case
  proof (cases r)
    case (Ok nc1)
    obtain c2 where c2:
      "trace (snd (for_each live (panel_state_change_iteration env cached_states) nc1 w1))
         = trace w1 @ c2"
      "\<forall>k. SendDisarmedAxeMessage k \<notin> set c2"
      using Cons.IH [of nc1 w1] by auto
    have "trace (snd (for_each (x # live) (panel_state_change_iteration env cached_states) nc w))
            = trace w @ (c1 @ c2)"
      using c1 c2 by (simp add: step Ok)
    moreover have "\<forall>k. SendDisarmedAxeMessage k \<notin> set (c1 @ c2)"
      using c1 c2 by simp
    ultimately show ?thesis by blast
  next
    case (Raise e)
    then show ?thesis using c1 by (simp add: step)
  qed
qed


lemma tick_persists_live_values:
  assumes keys: "distinct (map fst (live_arm_states env (trace w)))"
    and live: "(building_id, is_armed) \<in> set (live_arm_states env (trace w))"
    and completes: "fst (manage_proevents_on_panel_state_change_try env w) = Ok ()"
  shows "cached_arm_state (snd (manage_proevents_on_panel_state_change env w)) building_id
           = Some is_armed"
proof -
  let ?w1 = "w\<lparr>trace := trace w @ [GetAllLiveBuildingArmStates]\<rparr>"
  let ?w2 = "?w1\<lparr>trace := trace ?w1 @ [GetCacheValue ''panel_state_cache'']\<rparr>"
  let ?cached = "case panel_state_cache w of None \<Rightarrow> Map.empty | Some m \<Rightarrow> m"
  let ?loop = "for_each (live_arm_states env (trace w))
                 (panel_state_change_iteration env ?cached) ?cached ?w2"
  obtain r w3 where run: "?loop = (r, w3)"
    by (cases ?loop)
  from completes run obtain nc where r: "r = Ok nc"
    by (cases r)
       (auto simp add: manage_proevents_on_panel_state_change_try_def flow_defs
          collaborator_defs Let_def split: option.splits)
  have "\<forall>(b, a) \<in> set (live_arm_states env (trace w)). nc (str b) = Some a"
    using loop_result [OF run [unfolded r] keys] by simp
  with live have nc: "nc (str building_id) = Some is_armed"
    by auto
  show ?thesis
    using completes run r nc
    by (auto simp add: manage_proevents_on_panel_state_change_def
          manage_proevents_on_panel_state_change_try_def flow_defs collaborator_defs Let_def
          cached_arm_state_def
          split: option.splits)
qed


lemma str_2: "str 2 = ''2''"
  by code_simp

lemma str_3: "str 3 = ''3''"
  by code_simp

section \<open>Relating two runs\<close>

lemma relatedD:
  "related m m' \<Longrightarrow> same_but_debug w w' \<Longrightarrow>
   fst (m w) = fst (m' w') \<and> same_but_debug (snd (m w)) (snd (m' w'))"
  by (simp add: related_def)

lemma related_return: "related (return v) (return v)"
  by (simp add: related_def return_def)

lemma related_logger: "related (logger l msg) (logger l msg)"
  by (simp add: related_def logger_def same_but_debug_def undebug_def)

lemma related_andthen:
  assumes "related m m'" and "\<And>v. related (f v) (f' v)"
  shows "related (andthen m f) (andthen m' f')"
  unfolding related_def
proof (intro allI impI)
  fix w w'
  assume same: "same_but_debug w w'"
  obtain r w1 where m: "m w = (r, w1)" by (cases "m w")
  obtain r' w1' where m': "m' w' = (r', w1')" by (cases "m' w'")
  have r: "r = r'" and w1: "same_but_debug w1 w1'"
    using relatedD [OF assms(1) same] m m' by simp_all
  show "fst (andthen m f w) = fst (andthen m' f' w') \<and>
        same_but_debug (snd (andthen m f w)) (snd (andthen m' f' w'))"
  proof (cases r')
    case (Ok v)
    then show ?thesis
      using relatedD [OF assms(2) [of v] w1] r by (simp add: andthen_def m m')
  next
    case (Raise e)
    then show ?thesis
      using w1 r by (simp add: andthen_def m m')
  qed
qed

lemma related_try_except:
  assumes "related m m'" and "\<And>e. related (h e) (h' e)"
  shows "related (try_except m h) (try_except m' h')"
  unfolding related_def
proof (intro allI impI)
  fix w w'
  assume same: "same_but_debug w w'"
  obtain r w1 where m: "m w = (r, w1)" by (cases "m w")
  obtain r' w1' where m': "m' w' = (r', w1')" by (cases "m' w'")
  have r: "r = r'" and w1: "same_but_debug w1 w1'"
    using relatedD [OF assms(1) same] m m' by simp_all
  show "fst (try_except m h w) = fst (try_except m' h' w') \<and>
        same_but_debug (snd (try_except m h w)) (snd (try_except m' h' w'))"
  proof (cases r')
    case (Ok v)
    then show ?thesis
      using w1 r by (simp add: try_except_def m m')
  next
    case (Raise e)
    then show ?thesis
      using relatedD [OF assms(2) [of e] w1] r by (simp add: try_except_def m m')
  qed
qed

lemma related_for_each:
  assumes "\<And>x s. related (body x s) (body' x s)"
  shows "related (for_each xs body s) (for_each xs body' s)"
proof (induction xs arbitrary: s)
  case Nil
  then show ?case by (simp add: related_def)
next
  case (Cons x xs)
  have "for_each (x # xs) body s = andthen (body x s) (for_each xs body)"
       "for_each (x # xs) body' s = andthen (body' x s) (for_each xs body')"
    by (auto simp add: andthen_def fun_eq_iff split: prod.splits result.splits)
  then show ?case
    using related_andthen [OF assms [of x s], of "for_each xs body" "for_each xs body'"] Cons.IH
    by simp
qed

lemma related_external:
  "related (external env c answer) (external env c answer)"
  by (simp add: related_def external_def same_but_debug_def split: option.splits)

lemma related_get_cache:
  "related (get_cache_value_panel_state_cache env) (get_cache_value_panel_state_cache env)"
  by (simp add: related_def external_def get_cache_value_panel_state_cache_def
        same_but_debug_def split: option.splits)

lemma related_set_cache:
  "related (set_cache_value_panel_state_cache env v) (set_cache_value_panel_state_cache env v)"
  by (simp add: related_def external_def set_cache_value_panel_state_cache_def andthen_def
        same_but_debug_def split: option.splits)

lemma related_debug:
  assumes "related m m'"
  shows "related m (andthen
      (logger INFO ''[DEBUG] Building {}: current={}, previous={}'') (\<lambda>u. m'))"
  unfolding related_def
proof (intro allI impI)
  fix w w'
  assume "same_but_debug w w'"
  then have "same_but_debug w (w'\<lparr>logged := logged w' @ [debug_record]\<rparr>)"
    by (simp add: same_but_debug_def undebug_def)
  then show "fst (m w) = fst (andthen
      (logger INFO ''[DEBUG] Building {}: current={}, previous={}'') (\<lambda>u. m') w') \<and>
        same_but_debug (snd (m w)) (snd (andthen
            (logger INFO ''[DEBUG] Building {}: current={}, previous={}'') (\<lambda>u. m') w'))"
    using assms by (simp add: andthen_def logger_def related_def debug_record_def)
qed

lemmas related_intros =
  related_return related_logger related_andthen related_try_except related_for_each
  related_external related_get_cache related_set_cache

lemma agreeD:
  "agree m m' \<Longrightarrow> same_but_debug w w' \<Longrightarrow>
   same_outcome (fst (m w)) (fst (m' w')) \<and> same_but_debug (snd (m w)) (snd (m' w'))"
  by (simp add: agree_def)

lemma agree_return: "agree (return v) (return v')"
  by (simp add: agree_def return_def same_outcome_def)

lemma agree_andthen_any:
  assumes "agree m m'" and "\<And>v v'. agree (f v) (f' v')"
  shows "agree (andthen m f) (andthen m' f')"
  unfolding agree_def
proof (intro allI impI)
  fix w w'
  assume same: "same_but_debug w w'"
  obtain r w1 where m: "m w = (r, w1)" by (cases "m w")
  obtain r' w1' where m': "m' w' = (r', w1')" by (cases "m' w'")
  have r: "same_outcome r r'" and w1: "same_but_debug w1 w1'"
    using agreeD [OF assms(1) same] m m' by simp_all
  show "same_outcome (fst (andthen m f w)) (fst (andthen m' f' w')) \<and>
        same_but_debug (snd (andthen m f w)) (snd (andthen m' f' w'))"
  proof (cases r)
    case (Ok v)
    with r obtain v' where r': "r' = Ok v'"
      by (cases r') (simp_all add: same_outcome_def)
    show ?thesis
      using agreeD [OF assms(2) [of v v'] w1] by (simp add: andthen_def m m' Ok r')
  next
    case (Raise e)
    with r have r': "r' = Raise e"
      by (cases r') (simp_all add: same_outcome_def)
    show ?thesis
      using w1 by (simp add: andthen_def m m' Raise r' same_outcome_def)
  qed
qed

lemma related_agree: "related m m' \<Longrightarrow> agree m m'"
  by (auto simp add: related_def agree_def same_outcome_def split: result.splits)

lemma agree_andthen:
  assumes "related m m'" and "\<And>v. agree (f v) (f' v)"
  shows "agree (andthen m f) (andthen m' f')"
  unfolding agree_def
proof (intro allI impI)
  fix w w'
  assume same: "same_but_debug w w'"
  obtain r w1 where m: "m w = (r, w1)" by (cases "m w")
  obtain r' w1' where m': "m' w' = (r', w1')" by (cases "m' w'")
  have r: "r = r'" and w1: "same_but_debug w1 w1'"
    using relatedD [OF assms(1) same] m m' by simp_all
  show "same_outcome (fst (andthen m f w)) (fst (andthen m' f' w')) \<and>
        same_but_debug (snd (andthen m f w)) (snd (andthen m' f' w'))"
  proof (cases r')
    case (Ok v)
    then show ?thesis
      using agreeD [OF assms(2) [of v] w1] r by (simp add: andthen_def m m')
  next
    case (Raise e)
    then show ?thesis
      using w1 r by (simp add: andthen_def m m' same_outcome_def)
  qed
qed

lemma agree_iteration:
  "agree (panel_state_change_iteration env cached_states item nc)
         (panel_state_change_iteration env cached_states item nc')"
  unfolding panel_state_change_iteration_def
    get_proevents_for_building_from_db_def get_ignored_proevents_def
    set_proevent_reactive_state_bulk_def Let_def
  by (cases item)
     (auto intro!: agree_andthen agree_return related_intros split: option.split)

lemma iteration_cold_start:
  assumes "cached_states (str building_id) = None"
  shows "panel_state_change_iteration env cached_states (building_id, is_armed) new_cached_states w =
           (Ok (new_cached_states(str building_id \<mapsto> is_armed)),
            w\<lparr>logged := logged w @ [(INFO, ''[DEBUG] Building {}: current={}, previous={}'')]\<rparr>)"
  using assms by (simp add: panel_state_change_iteration_def flow_defs)

lemma for_each_Cons_andthen:
  "for_each (x # xs) body s = andthen (body x s) (for_each xs body)"
  by (auto simp add: andthen_def fun_eq_iff split: prod.splits result.splits)

lemma agree_loop_without:
  assumes unknown: "cached_states (str b) = None"
  shows "agree (for_each live (panel_state_change_iteration env cached_states) nc)
               (for_each (filter (\<lambda>item. fst item \<noteq> b) live)
                  (panel_state_change_iteration env cached_states) nc')"
proof (induction live arbitrary: nc nc')
  case Nil
  then show ?case by (simp add: agree_def same_outcome_def)
next
  case (Cons x live)
  obtain b' a' where x: "x = (b', a')" by (cases x)
  show ?case
  proof (cases "b' = b")
    case True
    show ?thesis
      unfolding agree_def
    proof (intro allI impI)
      fix w w'
      assume same: "same_but_debug w w'"
      let ?w1 = "w\<lparr>logged := logged w @ [(INFO, ''[DEBUG] Building {}: current={}, previous={}'')]\<rparr>"
      have same1: "same_but_debug ?w1 w'"
        using same by (simp add: same_but_debug_def undebug_def debug_record_def)
      have eq1: "for_each (x # live) (panel_state_change_iteration env cached_states) nc w
              = for_each live (panel_state_change_iteration env cached_states)
                  (nc(str b \<mapsto> a')) ?w1"
        using iteration_cold_start [of cached_states b env a' nc w] unknown by (simp add: x True)
      have eq2: "filter (\<lambda>item. fst item \<noteq> b) (x # live) = filter (\<lambda>item. fst item \<noteq> b) live"
        by (simp add: x True)
      show "same_outcome
          (fst (for_each (x # live) (panel_state_change_iteration env cached_states) nc w))
          (fst (for_each (filter (\<lambda>item. fst item \<noteq> b) (x # live))
                  (panel_state_change_iteration env cached_states) nc' w')) \<and>
        same_but_debug
          (snd (for_each (x # live) (panel_state_change_iteration env cached_states) nc w))
          (snd (for_each (filter (\<lambda>item. fst item \<noteq> b) (x # live))
                  (panel_state_change_iteration env cached_states) nc' w'))"
        unfolding eq1 eq2
        by (rule agreeD [OF Cons.IH same1])
    qed
  next
    case False
    then have keep: "filter (\<lambda>item. fst item \<noteq> b) (x # live) = x # filter (\<lambda>item. fst item \<noteq> b) live"
      by (simp add: x)
    show ?thesis
      unfolding keep for_each_Cons_andthen
      by (intro agree_andthen_any agree_iteration Cons.IH)
  qed
qed

lemma without_building_collaborators:
  "get_proevents_for_building_from_db (without_building b env)
     = get_proevents_for_building_from_db env"
  "get_ignored_proevents (without_building b env) = get_ignored_proevents env"
  "set_proevent_reactive_state_bulk (without_building b env)
     = set_proevent_reactive_state_bulk env"
  "get_cache_value_panel_state_cache (without_building b env)
     = get_cache_value_panel_state_cache env"
  "set_cache_value_panel_state_cache (without_building b env)
     = set_cache_value_panel_state_cache env"
  "set_iter (without_building b env) = set_iter env"
  "fails (without_building b env) = fails env"
  by (simp_all add: fun_eq_iff without_building_def collaborator_defs external_def andthen_def)

lemma iteration_without_building:
  "panel_state_change_iteration (without_building b env) = panel_state_change_iteration env"
  unfolding fun_eq_iff panel_state_change_iteration_def without_building_collaborators
  by simp

section \<open>Edges\<close>














section \<open>Idempotence\<close>

text \<open>
  C2. If every building of the live read has a cached arm state equal to its live arm
  state, the tick issues no bulk write: the bulk writes in the trace after the tick are
  those that were there before it.
\<close>

theorem tick_without_edge_issues_no_bulk_write:
  assumes "\<forall>(b, a) \<in> set (live_arm_states env (trace w)). cached_arm_state w b = Some a"
  shows "bulk_writes (trace (snd (manage_proevents_on_panel_state_change env w)))
      = bulk_writes (trace w)"
proof -
  let ?w1 = "w\<lparr>trace := trace w @ [GetAllLiveBuildingArmStates]\<rparr>"
  let ?w2 = "?w1\<lparr>trace := trace ?w1 @ [GetCacheValue ''panel_state_cache'']\<rparr>"
  let ?cached = "case panel_state_cache w of None \<Rightarrow> Map.empty | Some m \<Rightarrow> m"
  let ?loop = "for_each (live_arm_states env (trace w))
                 (panel_state_change_iteration env ?cached) ?cached ?w2"
  have same: "\<forall>(b, a) \<in> set (live_arm_states env (trace w)). ?cached (str b) = Some a"
    using assms by (auto simp add: cached_arm_state_def split: option.splits)
  have loop: "trace (snd ?loop) = trace ?w2"
    using loop_no_edge [OF same] .
  obtain r w3 where run: "?loop = (r, w3)"
    by (cases ?loop)
  have w3: "trace w3 = trace w @ [GetAllLiveBuildingArmStates, GetCacheValue ''panel_state_cache'']"
    using loop run by simp
  show ?thesis
    using run w3
    by (auto simp add: manage_proevents_on_panel_state_change_def
          manage_proevents_on_panel_state_change_try_def flow_defs collaborator_defs Let_def
          bulk_writes_append
          split: option.splits result.splits prod.splits)
qed

theorem tick_without_edge_issues_no_bulk_write_witness:
  "cached_arm_state (spec_world (Some True)) 1 = Some True
   \<and> bulk_writes (trace (snd (manage_proevents_on_panel_state_change (spec_env True True)
                                (spec_world (Some True))))) = []"
  using tick_without_edge_issues_no_bulk_write [of "spec_env True True" "spec_world (Some True)"]
  by (simp add: spec_env_def spec_world_def str_1 cached_arm_state_def)

section \<open>Cold start\<close>

text \<open>
  C3 as stated fails in its first half when a later call of the same tick raises. Building
  1 has never been observed and is live Armed; building 2, cached Disarmed and live
  Armed, comes after it in the loop and its device read raises. The cache write at the
  end of the tick is skipped, and the cached arm state of building 1 is still Unknown.
\<close>

theorem cold_start_counterexample:
  "(1, True) \<in> set (live_arm_states failing_read_env (trace cold_then_edge_world))
   \<and> cached_arm_state cold_then_edge_world 1 = None
   \<and> cached_arm_state
         (snd (manage_proevents_on_panel_state_change failing_read_env cold_then_edge_world)) 1
       = None"
  by (simp add: failing_read_env_def spec_env_def cold_then_edge_world_def str_1 str_2
        cached_arm_state_def run_defs)

text \<open>
  C3, amended. For a building whose cached arm state is Unknown, the tick performs no
  device mutation and triggers nothing: it issues exactly the calls it issues when the
  building is left out of the live read (the same reads, the same bulk writes, in the
  same order), and it sends no alert. When the tick runs to its end without an
  exception, it stores the building's live value in the cache.
\<close>

theorem cold_start_only_initialises_cache:
  assumes unknown: "cached_arm_state w building_id = None"
  shows "trace (snd (manage_proevents_on_panel_state_change env w))
           = trace (snd (manage_proevents_on_panel_state_change
                           (without_building building_id env) w))
       \<and> (\<forall>b. SendDisarmedAxeMessage b
                 \<notin> set (calls_since w (snd (manage_proevents_on_panel_state_change env w))))
       \<and> (fst (manage_proevents_on_panel_state_change_try env w) = Ok ()
            \<and> distinct (map fst (live_arm_states env (trace w)))
            \<and> (building_id, is_armed) \<in> set (live_arm_states env (trace w))
          \<longrightarrow> cached_arm_state (snd (manage_proevents_on_panel_state_change env w)) building_id
                = Some is_armed)"
proof -
  let ?env' = "without_building building_id env"
  let ?w1 = "w\<lparr>trace := trace w @ [GetAllLiveBuildingArmStates]\<rparr>"
  let ?w2 = "?w1\<lparr>trace := trace ?w1 @ [GetCacheValue ''panel_state_cache'']\<rparr>"
  let ?cached = "case panel_state_cache w of None \<Rightarrow> Map.empty | Some m \<Rightarrow> m"
  let ?live = "live_arm_states env (trace w)"
  let ?live' = "filter (\<lambda>item. fst item \<noteq> building_id) ?live"
  let ?body = "panel_state_change_iteration env ?cached"
  have unknown': "?cached (str building_id) = None"
    using unknown by (simp add: cached_arm_state_def split: option.splits)
  obtain r w3 where run: "for_each ?live ?body ?cached ?w2 = (r, w3)"
    by (cases "for_each ?live ?body ?cached ?w2")
  obtain r' w3' where run': "for_each ?live' ?body ?cached ?w2 = (r', w3')"
    by (cases "for_each ?live' ?body ?cached ?w2")
  have "same_but_debug ?w2 ?w2"
    by (simp add: same_but_debug_def)
  from agreeD [OF agree_loop_without [of ?cached building_id ?live env ?cached ?cached] this] unknown'
  have outcome: "same_outcome r r'" and same: "same_but_debug w3 w3'"
    using run run' by simp_all
  have tr: "trace w3 = trace w3'"
    using same by (simp add: same_but_debug_def)
  have live': "live_arm_states ?env' (trace w) = ?live'"
    by (simp add: without_building_def)
  have first: "trace (snd (manage_proevents_on_panel_state_change env w))
           = trace (snd (manage_proevents_on_panel_state_change ?env' w))"
  proof (cases "fails env (trace w) GetAllLiveBuildingArmStates")
    case (Some e1)
    then show ?thesis
      by (simp add: manage_proevents_on_panel_state_change_def
            manage_proevents_on_panel_state_change_try_def flow_defs collaborator_defs
            without_building_def)
  next
    case None
    note live_ok = this
    show ?thesis
    proof (cases "fails env (trace ?w1) (GetCacheValue ''panel_state_cache'')")
      case (Some e2)
      then show ?thesis
        using live_ok
        by (simp add: manage_proevents_on_panel_state_change_def
              manage_proevents_on_panel_state_change_try_def flow_defs collaborator_defs
              without_building_def)
    next
      case None
      note cache_ok = this
      have with_b: "trace (snd (manage_proevents_on_panel_state_change env w))
                      = (case r of Ok nc \<Rightarrow> trace w3 @ [SetCacheValue ''panel_state_cache'']
                                 | Raise e \<Rightarrow> trace w3)"
        using live_ok cache_ok run
        by (cases r)
           (auto simp add: manage_proevents_on_panel_state_change_def
              manage_proevents_on_panel_state_change_try_def flow_defs collaborator_defs Let_def
              split: option.splits)
      have run'': "for_each ?live' (panel_state_change_iteration ?env' ?cached) ?cached ?w2
                     = (r', w3')"
        using run' by (simp add: iteration_without_building)
      have without_b: "trace (snd (manage_proevents_on_panel_state_change ?env' w))
                      = (case r' of Ok nc \<Rightarrow> trace w3' @ [SetCacheValue ''panel_state_cache'']
                                  | Raise e \<Rightarrow> trace w3')"
        using live_ok cache_ok run'' live'
        by (cases r')
           (auto simp add: manage_proevents_on_panel_state_change_def
              manage_proevents_on_panel_state_change_try_def flow_defs collaborator_defs Let_def
              without_building_collaborators
              split: option.splits)
      show ?thesis
        using with_b without_b outcome tr
        by (cases r; cases r') (simp_all add: same_outcome_def)
    qed
  qed
  have second: "\<forall>b. SendDisarmedAxeMessage b
                 \<notin> set (calls_since w (snd (manage_proevents_on_panel_state_change env w)))"
  proof -
    obtain calls where calls: "trace w3 = trace ?w2 @ calls"
      "\<forall>k. SendDisarmedAxeMessage k \<notin> set calls"
      using loop_no_alert [of ?live env ?cached ?cached ?w2] run by auto
    have "\<exists>more. trace (snd (manage_proevents_on_panel_state_change env w)) = trace w @ more
            \<and> (\<forall>k. SendDisarmedAxeMessage k \<notin> set more)"
    proof (cases "fails env (trace w) GetAllLiveBuildingArmStates")
      case (Some e1)
      then have "trace (snd (manage_proevents_on_panel_state_change env w))
                   = trace w @ [GetAllLiveBuildingArmStates]"
        by (simp add: manage_proevents_on_panel_state_change_def
              manage_proevents_on_panel_state_change_try_def flow_defs collaborator_defs)
      then show ?thesis
        by (intro exI [of _ "[GetAllLiveBuildingArmStates]"]) simp
    next
      case None
      note live_ok = this
      show ?thesis
      proof (cases "fails env (trace ?w1) (GetCacheValue ''panel_state_cache'')")
        case (Some e2)
        then have "trace (snd (manage_proevents_on_panel_state_change env w))
                     = trace w @ [GetAllLiveBuildingArmStates, GetCacheValue ''panel_state_cache'']"
          using live_ok
          by (simp add: manage_proevents_on_panel_state_change_def
                manage_proevents_on_panel_state_change_try_def flow_defs collaborator_defs)
        then show ?thesis
          by (intro exI [of _ "[GetAllLiveBuildingArmStates, GetCacheValue ''panel_state_cache'']"])
             simp
      next
        case None
        note cache_ok = this
        let ?pre = "[GetAllLiveBuildingArmStates, GetCacheValue ''panel_state_cache''] @ calls"
        have "trace (snd (manage_proevents_on_panel_state_change env w)) = trace w @ ?pre
            \<or> trace (snd (manage_proevents_on_panel_state_change env w))
                 = trace w @ ?pre @ [SetCacheValue ''panel_state_cache'']"
          using live_ok cache_ok run calls(1)
          by (cases r)
             (auto simp add: manage_proevents_on_panel_state_change_def
                manage_proevents_on_panel_state_change_try_def flow_defs collaborator_defs Let_def
                split: option.splits)
        moreover have "\<forall>k. SendDisarmedAxeMessage k \<notin> set ?pre"
          "\<forall>k. SendDisarmedAxeMessage k \<notin> set (?pre @ [SetCacheValue ''panel_state_cache''])"
          using calls(2) by simp_all
        ultimately show ?thesis
          by (metis append_assoc)
      qed
    qed
    then show ?thesis
      by (auto simp add: calls_since_def)
  qed
  have third: "fst (manage_proevents_on_panel_state_change_try env w) = Ok ()
            \<and> distinct (map fst (live_arm_states env (trace w)))
            \<and> (building_id, is_armed) \<in> set (live_arm_states env (trace w))
          \<longrightarrow> cached_arm_state (snd (manage_proevents_on_panel_state_change env w)) building_id
                = Some is_armed"
    using tick_persists_live_values by blast
  from first second third show ?thesis by blast
qed

lemma campus_cold_tick:
  "trace (snd (manage_proevents_on_panel_state_change (campus_env True) campus_cold_world))
     = [GetAllLiveBuildingArmStates, GetCacheValue ''panel_state_cache'',
        GetProeventsForBuildingFromDb 2, GetIgnoredProevents,
        SetProeventReactiveStateBulk [(3, 0), (7, 0)],
        GetProeventsForBuildingFromDb 3, GetIgnoredProevents,
        SetProeventReactiveStateBulk [(9, 1)],
        SetCacheValue ''panel_state_cache'']"
  by (simp add: campus_env_def campus_cold_world_def str_1 str_2 str_3 run_defs)

lemma campus_cold_tick_completes:
  "fst (manage_proevents_on_panel_state_change_try (campus_env True) campus_cold_world) = Ok ()"
  by (simp add: campus_env_def campus_cold_world_def str_1 str_2 str_3 run_defs)

theorem cold_start_only_initialises_cache_witness:
  "cached_arm_state campus_cold_world 1 = None
   \<and> trace (snd (manage_proevents_on_panel_state_change (campus_env True) campus_cold_world))
       = trace (snd (manage_proevents_on_panel_state_change
                       (without_building 1 (campus_env True)) campus_cold_world))
   \<and> trace (snd (manage_proevents_on_panel_state_change (campus_env True) campus_cold_world))
       = [GetAllLiveBuildingArmStates, GetCacheValue ''panel_state_cache'',
          GetProeventsForBuildingFromDb 2, GetIgnoredProevents,
          SetProeventReactiveStateBulk [(3, 0), (7, 0)],
          GetProeventsForBuildingFromDb 3, GetIgnoredProevents,
          SetProeventReactiveStateBulk [(9, 1)],
          SetCacheValue ''panel_state_cache'']
   \<and> cached_arm_state
        (snd (manage_proevents_on_panel_state_change (campus_env True) campus_cold_world)) 1
       = Some True"
proof -
  have unknown: "cached_arm_state campus_cold_world 1 = None"
    by (simp add: campus_cold_world_def cached_arm_state_def str_1)
  have live: "distinct (map fst (live_arm_states (campus_env True) (trace campus_cold_world)))"
    "(1, True) \<in> set (live_arm_states (campus_env True) (trace campus_cold_world))"
    by (simp_all add: campus_env_def)
  show ?thesis
    using cold_start_only_initialises_cache
            [where env = "campus_env True" and w = campus_cold_world and building_id = 1
               and is_armed = True, OF unknown]
          unknown live campus_cold_tick_completes campus_cold_tick
    by simp
qed

section \<open>Cache advance\<close>

text \<open>
  C4 as stated fails when a later call of the same tick raises. Building 1 is cached
  Disarmed and live Armed, the tick detects the edge and performs the bulk write on
  devices 3 and 7; then the device read of building 2 raises, the cache write at the end
  of the tick is skipped, and the cached arm state of building 1 is still Disarmed.
\<close>

theorem cache_advance_counterexample:
  "(1, True) \<in> set (live_arm_states failing_read_env (trace two_building_world))
   \<and> cached_arm_state two_building_world 1 = Some False
   \<and> bulk_writes (trace (snd (manage_proevents_on_panel_state_change failing_read_env
                                two_building_world))) = [[(3, 0), (7, 0)]]
   \<and> cached_arm_state
         (snd (manage_proevents_on_panel_state_change failing_read_env two_building_world)) 1
       = Some False"
  by (simp add: failing_read_env_def spec_env_def two_building_world_def str_1 str_2
        cached_arm_state_def run_defs)

text \<open>
  C4, amended. If the tick runs to its end without an exception, then after it the cached
  arm state of every building of the live read, in particular of one on which the tick
  detected an edge and performed a bulk write, is the live value. Nothing is assumed
  about what a bulk write reports, so the cache advances whether the write reports
  success or failure, on the Armed branch and on the Disarmed branch alike. The live
  read is a dict, so its keys are distinct.
\<close>

theorem cache_advances_whatever_the_write_reports:
  assumes keys: "distinct (map fst (live_arm_states env (trace w)))"
    and live: "(building_id, is_armed) \<in> set (live_arm_states env (trace w))"
    and completes: "fst (manage_proevents_on_panel_state_change_try env w) = Ok ()"
  shows "cached_arm_state (snd (manage_proevents_on_panel_state_change env w)) building_id
           = Some is_armed"
  using assms by (rule tick_persists_live_values)

theorem cache_advances_whatever_the_write_reports_witness:
  "bulk_writes (trace (snd (manage_proevents_on_panel_state_change (spec_env True False)
                              (spec_world (Some False))))) = [[(3, 0), (7, 0)]]
   \<and> (ERROR, ''[Building {}] Failed to reactivate previously ignored ProEvents.'')
       \<in> set (logged (snd (manage_proevents_on_panel_state_change (spec_env True False)
                              (spec_world (Some False)))))
   \<and> cached_arm_state (snd (manage_proevents_on_panel_state_change (spec_env True False)
                              (spec_world (Some False)))) 1 = Some True
   \<and> bulk_writes (trace (snd (manage_proevents_on_panel_state_change (spec_env False False)
                              (spec_world (Some True))))) = [[(3, 1), (7, 1)]]
   \<and> (ERROR, ''[Building {}] Failed to disarm selected ProEvents.'')
       \<in> set (logged (snd (manage_proevents_on_panel_state_change (spec_env False False)
                              (spec_world (Some True)))))
   \<and> cached_arm_state (snd (manage_proevents_on_panel_state_change (spec_env False False)
                              (spec_world (Some True)))) 1 = Some False"
  using cache_advances_whatever_the_write_reports
          [of "spec_env True False" "spec_world (Some False)" 1 True]
        cache_advances_whatever_the_write_reports
          [of "spec_env False False" "spec_world (Some True)" 1 False]
  by (simp add: spec_env_def spec_world_def str_1
        manage_proevents_on_panel_state_change_def manage_proevents_on_panel_state_change_try_def
        panel_state_change_iteration_def ignored_ids_of_def
        flow_defs collaborator_defs Let_def)

section \<open>Snapshots\<close>

text \<open>
  C5 as stated fails for a building with a schedule and no device in the live system:
  the guard on the empty device list leaves before the snapshot is saved, so the first
  call saves nothing and writes nothing, and the second call finds no snapshot and reads
  the live system again.
\<close>

theorem snapshot_exactly_once_counterexample:
  "building_time no_device_env [] 1 = Some \<lparr>start_time = Some ''20:00''\<rparr>
   \<and> snapshots (spec_world None) 1 = None
   \<and> trace (snd (evaluate_building_state no_device_env 1
                   (snd (evaluate_building_state no_device_env 1 (spec_world None)))))
       = [GetBuildingTime 1, GetSnapshot 1, GetProeventsForBuildingFromDb 1,
          GetBuildingTime 1, GetSnapshot 1, GetProeventsForBuildingFromDb 1]
   \<and> snapshots (snd (evaluate_building_state no_device_env 1 (spec_world None))) 1 = None"
  by (simp add: no_device_env_def spec_env_def spec_world_def evaluate_building_state_def
        take_snapshot_and_apply_schedule_def flow_defs collaborator_defs)


text \<open>
  C5, amended. For a building with a configured schedule, no snapshot stored, and at
  least one device in the live system, when no collaborator call raises: the first of
  two successive calls of \<^verbatim>\<open>_evaluate_building_state\<close> reads the devices once, saves their
  \<open>(id, state)\<close> pairs as the snapshot and issues one bulk write that sets the devices of
  the ignore set to 1 and the others to 0; the second call, finding the snapshot, only
  reads the schedule and the snapshot: no device read, no snapshot save, no bulk write.
\<close>

theorem snapshot_applied_exactly_once:
  assumes nofail: "\<forall>tr c. fails env tr c = None"
    and sched: "\<forall>tr. building_time env tr building_id \<noteq> None"
    and nosnap: "snapshots w building_id = None"
    and devs: "proevents env (trace w @ [GetBuildingTime building_id, GetSnapshot building_id])
                 building_id = devices"
    and nonempty: "devices \<noteq> []"
    and snap: "snapshot_data = map (\<lambda>dev. (dev_id dev, dev_state dev)) devices"
    and ids: "ids = ignored_ids_of (ignored_proevents env
                (trace w @ [GetBuildingTime building_id, GetSnapshot building_id,
                            GetProeventsForBuildingFromDb building_id,
                            SaveSnapshot building_id snapshot_data])) building_id"
  shows "\<exists>w1 w2.
           evaluate_building_state env building_id w = (Ok (), w1)
         \<and> trace w1 = trace w @
              [GetBuildingTime building_id, GetSnapshot building_id,
               GetProeventsForBuildingFromDb building_id,
               SaveSnapshot building_id snapshot_data,
               GetIgnoredProevents,
               SetProeventReactiveStateBulk
                 (map (\<lambda>(pid, s). (pid, if pid \<in> set ids then 1 else 0)) snapshot_data)]
         \<and> snapshots w1 = (snapshots w)(building_id \<mapsto> snapshot_data)
         \<and> evaluate_building_state env building_id w1 = (Ok (), w2)
         \<and> trace w2 = trace w1 @ [GetBuildingTime building_id, GetSnapshot building_id]
         \<and> snapshots w2 = snapshots w1"
  using assms
  by (auto simp add: evaluate_building_state_def
        take_snapshot_and_apply_schedule_def flow_defs collaborator_defs Let_def case_prod_unfold
        split: option.splits)

theorem snapshot_applied_exactly_once_witness:
  "\<exists>w1 w2.
      evaluate_building_state (spec_env False True) 1 (spec_world None) = (Ok (), w1)
    \<and> trace w1 = [GetBuildingTime 1, GetSnapshot 1, GetProeventsForBuildingFromDb 1,
                   SaveSnapshot 1 [(3, 1), (5, 0), (7, 1)], GetIgnoredProevents,
                   SetProeventReactiveStateBulk [(3, 1), (5, 0), (7, 1)]]
    \<and> snapshots w1 = [1 \<mapsto> [(3, 1), (5, 0), (7, 1)]]
    \<and> evaluate_building_state (spec_env False True) 1 w1 = (Ok (), w2)
    \<and> trace w2 = trace w1 @ [GetBuildingTime 1, GetSnapshot 1]
    \<and> snapshots w2 = snapshots w1"
  using snapshot_applied_exactly_once [of "spec_env False True" 1 "spec_world None"
          "[\<lparr>dev_id = 3, dev_state = 1\<rparr>, \<lparr>dev_id = 5, dev_state = 0\<rparr>, \<lparr>dev_id = 7, dev_state = 1\<rparr>]"
          "[(3, 1), (5, 0), (7, 1)]" "[3, 7]"]
  by (simp add: spec_env_def spec_world_def ignored_ids_of_def)


text \<open>
  C6. Whatever the collaborators answer, \<^verbatim>\<open>revert_snapshot\<close> issues first a bulk write
  whose payload is the snapshot data it was given, then at most the call that clears the
  snapshot, and no other call: it reads neither the live system nor the ignore list.
  When neither of the two calls raises, it returns normally with the snapshot of the
  building cleared, whatever the bulk write reports.
\<close>

theorem revert_snapshot_reapplies_captured_pairs:
  "(trace (snd (revert_snapshot env building_id snapshot_data w))
      = trace w @ [SetProeventReactiveStateBulk snapshot_data]
    \<or> trace (snd (revert_snapshot env building_id snapshot_data w))
      = trace w @ [SetProeventReactiveStateBulk snapshot_data, ClearSnapshot building_id])
   \<and> (fails env (trace w) (SetProeventReactiveStateBulk snapshot_data) = None
        \<and> fails env (trace w @ [SetProeventReactiveStateBulk snapshot_data])
              (ClearSnapshot building_id) = None
        \<longrightarrow> revert_snapshot env building_id snapshot_data w =
              (Ok (),
               w\<lparr>trace := trace w @ [SetProeventReactiveStateBulk snapshot_data,
                                     ClearSnapshot building_id],
                 logged := logged w @
                     [(INFO, ''[Building {}]: Reverting {} devices to their original states.'')],
                 snapshots := (snapshots w)(building_id := None)\<rparr>))"
  by (auto simp add: revert_snapshot_def flow_defs collaborator_defs split: option.splits)

theorem revert_snapshot_reapplies_captured_pairs_witness:
  "revert_snapshot (spec_env True False) 1 [(1, 0), (2, 1)]
     ((spec_world None)\<lparr>snapshots := [1 \<mapsto> [(1, 0), (2, 1)]]\<rparr>)
   = (Ok (),
      (spec_world None)
        \<lparr>trace := [SetProeventReactiveStateBulk [(1, 0), (2, 1)], ClearSnapshot 1],
         logged := [(INFO, ''[Building {}]: Reverting {} devices to their original states.'')],
         snapshots := Map.empty\<rparr>)"
  using revert_snapshot_reapplies_captured_pairs
          [of "spec_env True False" 1 "[(1, 0), (2, 1)]"
              "(spec_world None)\<lparr>snapshots := [1 \<mapsto> [(1, 0), (2, 1)]]\<rparr>"]
  by (simp add: spec_env_def spec_world_def)

section \<open>The manual path\<close>

text \<open>
  C7. Let the read of the global flag return. If the flag is Armed,
  \<^verbatim>\<open>reevaluate_building_state\<close> returns normally having issued that read and nothing else
  (no read of the live system, no write) and having logged a warning. If the flag is not
  Armed (never set, or Disarmed), it logs and runs \<^verbatim>\<open>_evaluate_building_state\<close>, whose
  result it returns; an exception of that call is logged and raised again.
\<close>

theorem reevaluate_rejected_while_armed:
  assumes "fails env (trace w) (GetCacheValue ''panel_armed'') = None"
  shows "(panel_armed w = Some True \<longrightarrow>
            reevaluate_building_state env building_id w =
              (Ok (),
               w\<lparr>trace := trace w @ [GetCacheValue ''panel_armed''],
                 logged := logged w @
                   [(WARNING, ''Manual re-evaluation for building {} skipped: Panel is ARMED.'')]\<rparr>))
       \<and> (panel_armed w \<noteq> Some True \<longrightarrow>
            reevaluate_building_state env building_id w =
              (case evaluate_building_state env building_id
                      (w\<lparr>trace := trace w @ [GetCacheValue ''panel_armed''],
                         logged := logged w @
                             [(INFO, ''Manual re-evaluation triggered for building {}.'')]\<rparr>) of
                 (Ok v, w') \<Rightarrow> (Ok v, w')
               | (Raise e, w') \<Rightarrow>
                   (Raise e,
                    w'\<lparr>logged := logged w' @
                        [(ERROR, ''Error in reevaluate_building_state (Building {}): {}'')]\<rparr>)))"
  using assms
  by (auto simp add: reevaluate_building_state_def flow_defs collaborator_defs
        split: prod.splits result.splits)

theorem reevaluate_rejected_while_armed_witness:
  "reevaluate_building_state (spec_env False True) 1
     ((spec_world None)\<lparr>panel_armed := Some True\<rparr>)
     = (Ok (),
        (spec_world None)
          \<lparr>trace := [GetCacheValue ''panel_armed''],
           logged := [(WARNING, ''Manual re-evaluation for building {} skipped: Panel is ARMED.'')],
           panel_armed := Some True\<rparr>)
   \<and> trace (snd (reevaluate_building_state (spec_env False True) 1
                   ((spec_world None)\<lparr>panel_armed := Some False\<rparr>)))
       = [GetCacheValue ''panel_armed'', GetBuildingTime 1, GetSnapshot 1,
          GetProeventsForBuildingFromDb 1, SaveSnapshot 1 [(3, 1), (5, 0), (7, 1)],
          GetIgnoredProevents, SetProeventReactiveStateBulk [(3, 1), (5, 0), (7, 1)]]"
  using reevaluate_rejected_while_armed
          [of "spec_env False True" "(spec_world None)\<lparr>panel_armed := Some True\<rparr>" 1]
        reevaluate_rejected_while_armed
          [of "spec_env False True" "(spec_world None)\<lparr>panel_armed := Some False\<rparr>" 1]
  by (simp add: spec_env_def spec_world_def evaluate_building_state_def
        take_snapshot_and_apply_schedule_def ignored_ids_of_def flow_defs collaborator_defs
        Let_def)

section \<open>The scheduled alert\<close>

lemma scheduled_iteration_other:
  assumes "b' \<noteq> b"
  shows "count_list (trace (snd (scheduled_states_iteration env ct (b', a') u w)))
           (SendDisarmedAxeMessage b)
         = count_list (trace w) (SendDisarmedAxeMessage b)"
  using assms
  by (auto simp add: scheduled_states_iteration_def flow_defs collaborator_defs Let_def
        split: option.splits)

lemma digit_eq:
  assumes "x < 10" "y < 10" "char_of (48 + x) = (char_of (48 + y) :: char)"
  shows "x = (y::nat)"
proof -
  have "(of_char (char_of (48 + x) :: char) :: nat) = of_char (char_of (48 + y) :: char)"
    using assms(3) by simp
  with assms(1,2) show ?thesis by simp
qed

lemma two_digits_eq:
  assumes "n < 100" "k < 100"
    and "char_of (48 + n div 10) = (char_of (48 + k div 10) :: char)"
    and "char_of (48 + n mod 10) = (char_of (48 + k mod 10) :: char)"
  shows "n = (k::nat)"
proof -
  have "n div 10 = k div 10"
    using assms(1,2,3) by (intro digit_eq) simp_all
  moreover have "n mod 10 = k mod 10"
    using assms(4) by (intro digit_eq) simp_all
  ultimately show ?thesis
    by (metis div_mult_mod_eq)
qed

lemma strftime_HM_eq_hhmm:
  assumes "hour t < 24" "minute t < 60" "h < 24" "m < 60"
  shows "strftime_HM t = hhmm h m \<longleftrightarrow> hour t = h \<and> minute t = m"
proof
  assume eq: "strftime_HM t = hhmm h m"
  then have "hour t = h"
    using assms by (intro two_digits_eq) (simp_all add: strftime_HM_def pad2_def hhmm_def digit_char_def)
  moreover from eq have "minute t = m"
    using assms by (intro two_digits_eq) (simp_all add: strftime_HM_def pad2_def hhmm_def digit_char_def)
  ultimately show "hour t = h \<and> minute t = m" ..
next
  assume "hour t = h \<and> minute t = m"
  then show "strftime_HM t = hhmm h m"
    by (simp add: strftime_HM_def pad2_def hhmm_def digit_char_def)
qed

lemma scheduled_iteration_self_ok:
  assumes "scheduled_states_iteration env ct (b, a) u w = (Ok v, w1)"
    and "building_time env (trace w) b = Some sched"
    and "start_time sched = Some t" and "t \<noteq> []"
  shows "count_list (trace w1) (SendDisarmedAxeMessage b)
         = count_list (trace w) (SendDisarmedAxeMessage b)
           + (if ct = take 5 t \<and> \<not> a then 1 else 0)"
  using assms
  by (auto simp add: scheduled_states_iteration_def flow_defs collaborator_defs Let_def
        split: option.splits if_splits)

lemma scheduled_loop_ok:
  assumes run: "for_each live (scheduled_states_iteration env ct) () w = (Ok v, w')"
    and sched: "\<forall>tr. building_time env tr b = Some sched"
    and time: "start_time sched = Some t" "t \<noteq> []"
    and keys: "distinct (map fst live)"
  shows "count_list (trace w') (SendDisarmedAxeMessage b)
         = count_list (trace w) (SendDisarmedAxeMessage b)
           + (if (b, False) \<in> set live \<and> ct = take 5 t then 1 else 0)"
  using run keys
proof (induction live arbitrary: w)
  case Nil
  then show ?case by simp
next
  case (Cons x live)
  obtain b' a' where x: "x = (b', a')" by (cases x)
  obtain r w1 where step: "scheduled_states_iteration env ct (b', a') () w = (r, w1)"
    by (cases "scheduled_states_iteration env ct (b', a') () w")
  from Cons.prems(1) have r: "r = Ok ()"
    by (cases r) (simp_all add: x step)
  have rest: "for_each live (scheduled_states_iteration env ct) () w1 = (Ok v, w')"
    using Cons.prems(1) by (simp add: x step r)
  have tail: "count_list (trace w') (SendDisarmedAxeMessage b)
              = count_list (trace w1) (SendDisarmedAxeMessage b)
                + (if (b, False) \<in> set live \<and> ct = take 5 t then 1 else 0)"
    using Cons.IH [OF rest] Cons.prems(2) by simp
  show ?case
  proof (cases "b' = b")
    case True
    have "b \<notin> fst ` set live"
      using Cons.prems(2) by (simp add: x True)
    then have absent: "(b, False) \<notin> set live"
      by force
    have "count_list (trace w1) (SendDisarmedAxeMessage b)
            = count_list (trace w) (SendDisarmedAxeMessage b)
              + (if ct = take 5 t \<and> \<not> a' then 1 else 0)"
      using scheduled_iteration_self_ok [OF _ _ time, of env ct b a' "()" w "()" w1] sched step r True
      by simp
    then show ?thesis
      using tail absent by (auto simp add: x True)
  next
    case False
    have "count_list (trace w1) (SendDisarmedAxeMessage b)
            = count_list (trace w) (SendDisarmedAxeMessage b)"
      using scheduled_iteration_other [OF False, of env ct a' "()" w] step by simp
    then show ?thesis
      using tail False by (auto simp add: x)
  qed
qed

lemma scheduled_iteration_extends:
  "\<exists>calls. trace (snd (scheduled_states_iteration env ct item u w)) = trace w @ calls"
  by (cases item)
     (auto simp add: scheduled_states_iteration_def flow_defs collaborator_defs Let_def
        split: option.splits)

lemma scheduled_loop_extends:
  "\<exists>calls. trace (snd (for_each live (scheduled_states_iteration env ct) () w)) = trace w @ calls"
proof (induction live arbitrary: w)
  case Nil
  then show ?case by simp
next
  case (Cons x live)
  obtain r w1 where step: "scheduled_states_iteration env ct x () w = (r, w1)"
    by (cases "scheduled_states_iteration env ct x () w")
  obtain c1 where c1: "trace w1 = trace w @ c1"
    using scheduled_iteration_extends [of env ct x "()" w] step by auto
  show ?case
  proof (cases r)
    case (Ok u)
    obtain c2 where
      "trace (snd (for_each live (scheduled_states_iteration env ct) () w1)) = trace w1 @ c2"
      using Cons.IH [of w1] by auto
    then have "trace (snd (for_each (x # live) (scheduled_states_iteration env ct) () w))
                 = trace w @ (c1 @ c2)"
      using c1 by (simp add: step Ok)
    then show ?thesis by blast
  next
    case (Raise e)
    then show ?thesis using c1 by (simp add: step)
  qed
qed

lemma strftime_2000: "strftime_HM \<lparr>hour = 20, minute = 0, second = 30\<rparr> = ''20:00''"
  by code_simp

lemma strftime_2005: "strftime_HM \<lparr>hour = 20, minute = 5, second = 0\<rparr> = ''20:05''"
  by code_simp

lemma hhmm_2000: "hhmm 20 0 = ''20:00''"
  by code_simp

text \<open>
  C8 as stated fails when an earlier call of the same check raises: with two Disarmed
  buildings at their check time, the alert of building 1 raises, the loop is left, and
  building 2 gets no alert.
\<close>

theorem alert_counterexample:
  "(2, False) \<in> set (live_arm_states alert_raises_env (trace (spec_world None)))
   \<and> building_time alert_raises_env [] 2 = Some \<lparr>start_time = Some ''20:00''\<rparr>
   \<and> clock alert_raises_env (trace (spec_world None)) = \<lparr>hour = 20, minute = 0, second = 30\<rparr>
   \<and> trace (snd (check_and_manage_scheduled_states alert_raises_env (spec_world None)))
       = [GetAllLiveBuildingArmStates, GetBuildingTime 1, SendDisarmedAxeMessage 1]
   \<and> count_list (trace (snd (check_and_manage_scheduled_states alert_raises_env (spec_world None))))
        (SendDisarmedAxeMessage 2) = 0"
  by (simp add: alert_raises_env_def spec_env_def spec_world_def strftime_2000
        check_and_manage_scheduled_states_def check_and_manage_scheduled_states_try_def
        scheduled_states_iteration_def flow_defs collaborator_defs Let_def)

text \<open>
  C8, amended. Take a check that runs to its end without an exception and a building of
  the live read whose schedule holds a check time \<open>t\<close> that begins with the text \<^verbatim>\<open>HH:MM\<close>
  of hour \<open>h\<close> and minute \<open>m\<close>. The check sends exactly one disarmed alert for the
  building when the hour and the minute of the clock are \<open>h\<close> and \<open>m\<close> and the live
  panel state is Disarmed, and none otherwise: none when the panel is Armed, none when
  the hour or the minute differs. The seconds of the clock and what follows the first
  five characters of \<open>t\<close> play no part.
\<close>

theorem alert_sent_iff_disarmed_at_check_time:
  assumes completes: "fst (check_and_manage_scheduled_states_try env w) = Ok ()"
    and keys: "distinct (map fst (live_arm_states env (trace w)))"
    and live: "(building_id, is_armed) \<in> set (live_arm_states env (trace w))"
    and sched: "\<forall>tr. building_time env tr building_id = Some sched"
    and time: "start_time sched = Some t" "take 5 t = hhmm h m" "h < 24" "m < 60"
    and now: "hour (clock env (trace w)) < 24" "minute (clock env (trace w)) < 60"
  shows "count_list (calls_since w (snd (check_and_manage_scheduled_states env w)))
           (SendDisarmedAxeMessage building_id)
         = (if hour (clock env (trace w)) = h \<and> minute (clock env (trace w)) = m \<and> \<not> is_armed
            then 1 else 0)"
proof -
  let ?live = "live_arm_states env (trace w)"
  let ?ct = "strftime_HM (clock env (trace w))"
  let ?w1 = "w\<lparr>trace := trace w @ [GetAllLiveBuildingArmStates]\<rparr>"
  let ?loop = "for_each ?live (scheduled_states_iteration env ?ct) () ?w1"
  have t: "t \<noteq> []"
    using time(2) by (auto simp add: hhmm_def)
  have match: "?ct = take 5 t \<longleftrightarrow> hour (clock env (trace w)) = h \<and> minute (clock env (trace w)) = m"
    using strftime_HM_eq_hhmm [OF now time(3,4)] time(2) by simp
  have member: "(building_id, False) \<in> set ?live \<longleftrightarrow> \<not> is_armed"
  proof
    assume "(building_id, False) \<in> set ?live"
    with live keys show "\<not> is_armed"
      by (metis eq_key_imp_eq_value)
  next
    assume "\<not> is_armed"
    with live show "(building_id, False) \<in> set ?live" by simp
  qed
  obtain r w2 where run: "?loop = (r, w2)"
    by (cases ?loop)
  have ok: "fails env (trace w) GetAllLiveBuildingArmStates = None" "r = Ok ()"
    using completes run
    by (auto simp add: check_and_manage_scheduled_states_try_def flow_defs collaborator_defs Let_def
          split: option.splits)
  have final: "snd (check_and_manage_scheduled_states env w) = w2"
    using ok run
    by (simp add: check_and_manage_scheduled_states_def check_and_manage_scheduled_states_try_def
          flow_defs collaborator_defs Let_def)
  obtain calls where calls: "trace w2 = trace ?w1 @ calls"
    using scheduled_loop_extends [of ?live env ?ct ?w1] run by auto
  have "count_list (trace w2) (SendDisarmedAxeMessage building_id)
         = count_list (trace ?w1) (SendDisarmedAxeMessage building_id)
           + (if (building_id, False) \<in> set ?live \<and> ?ct = take 5 t then 1 else 0)"
    using scheduled_loop_ok [OF run [unfolded ok(2)] sched time(1) t keys] .
  then have "count_list calls (SendDisarmedAxeMessage building_id)
         = (if (building_id, False) \<in> set ?live \<and> ?ct = take 5 t then 1 else 0)"
    using calls by simp
  moreover have "calls_since w w2 = GetAllLiveBuildingArmStates # calls"
    using calls by (simp add: calls_since_def)
  ultimately show ?thesis
    using final member match by auto
qed

lemma strftime_2100: "strftime_HM \<lparr>hour = 21, minute = 0, second = 30\<rparr> = ''21:00''"
  by code_simp

theorem alert_sent_iff_disarmed_at_check_time_witness:
  "count_list
     (calls_since (spec_world None)
        (snd (check_and_manage_scheduled_states (spec_env False True) (spec_world None))))
     (SendDisarmedAxeMessage 1) = 1
   \<and> count_list
     (calls_since (spec_world None)
        (snd (check_and_manage_scheduled_states (spec_env True True) (spec_world None))))
     (SendDisarmedAxeMessage 1) = 0
   \<and> count_list
     (calls_since (spec_world None)
        (snd (check_and_manage_scheduled_states (late_env False True) (spec_world None))))
     (SendDisarmedAxeMessage 1) = 0
   \<and> count_list
     (calls_since (spec_world None)
        (snd (check_and_manage_scheduled_states (next_hour_env False True) (spec_world None))))
     (SendDisarmedAxeMessage 1) = 0"
proof -
  have runs:
    "fst (check_and_manage_scheduled_states_try (spec_env False True) (spec_world None)) = Ok ()"
    "fst (check_and_manage_scheduled_states_try (spec_env True True) (spec_world None)) = Ok ()"
    "fst (check_and_manage_scheduled_states_try (late_env False True) (spec_world None)) = Ok ()"
    "fst (check_and_manage_scheduled_states_try (next_hour_env False True) (spec_world None))
       = Ok ()"
    by (simp_all add: late_env_def next_hour_env_def spec_env_def spec_world_def
          strftime_2000 strftime_2005 strftime_2100
          check_and_manage_scheduled_states_try_def
          scheduled_states_iteration_def flow_defs collaborator_defs Let_def)
  show ?thesis
    using alert_sent_iff_disarmed_at_check_time
            [OF runs(1), of 1 False "\<lparr>start_time = Some ''20:00''\<rparr>" "''20:00''" 20 0]
          alert_sent_iff_disarmed_at_check_time
            [OF runs(2), of 1 True "\<lparr>start_time = Some ''20:00''\<rparr>" "''20:00''" 20 0]
          alert_sent_iff_disarmed_at_check_time
            [OF runs(3), of 1 False "\<lparr>start_time = Some ''20:00''\<rparr>" "''20:00''" 20 0]
          alert_sent_iff_disarmed_at_check_time
            [OF runs(4), of 1 False "\<lparr>start_time = Some ''20:00''\<rparr>" "''20:00''" 20 0]
    by (simp add: late_env_def next_hour_env_def spec_env_def spec_world_def hhmm_2000)
qed

section \<open>The two definitions of the tick\<close>

lemma related_iteration:
  "related (panel_state_change_iteration_shadowed env cached_states item nc)
           (panel_state_change_iteration env cached_states item nc)"
  unfolding panel_state_change_iteration_shadowed_def panel_state_change_iteration_def
    get_proevents_for_building_from_db_def get_ignored_proevents_def
    set_proevent_reactive_state_bulk_def Let_def
  by (cases item) (auto intro!: related_debug related_intros split: option.split)


text \<open>
  C9. From any state and with any collaborators, the first definition of
  \<^verbatim>\<open>manage_proevents_on_panel_state_change\<close> and the second, which replaces it, return the
  same result and end in states with the same trace of calls (so the same bulk writes,
  with the same payloads, in the same order), the same cache and the same snapshots;
  their logs differ only in the debug records of the second.
\<close>

theorem shadowed_definition_equivalent:
  "fst (manage_proevents_on_panel_state_change_shadowed env w)
     = fst (manage_proevents_on_panel_state_change env w)
   \<and> same_but_debug (snd (manage_proevents_on_panel_state_change_shadowed env w))
        (snd (manage_proevents_on_panel_state_change env w))"
proof -
  have "related (manage_proevents_on_panel_state_change_shadowed env)
          (manage_proevents_on_panel_state_change env)"
    unfolding manage_proevents_on_panel_state_change_shadowed_def
      manage_proevents_on_panel_state_change_def manage_proevents_on_panel_state_change_try_def
      get_all_live_building_arm_states_def Let_def
    by (intro related_intros related_iteration)
  moreover have "same_but_debug w w"
    by (simp add: same_but_debug_def)
  ultimately show ?thesis
    by (simp add: related_def)
qed

section \<open>The cache is written once, at the end\<close>

text \<open>
  C10. The tick issues the write of \<^verbatim>\<open>"panel_state_cache"\<close> at most once, and as its last
  call. If the \<^verbatim>\<open>try\<close> block is left by an exception (raised by a read, by a step of
  the loop for any building, or by the cache write), the persisted cache after the tick
  is the persisted cache before it.
\<close>

theorem cache_update_all_or_nothing:
  "(\<exists>calls. SetCacheValue ''panel_state_cache'' \<notin> set calls
       \<and> (trace (snd (manage_proevents_on_panel_state_change env w)) = trace w @ calls
          \<or> trace (snd (manage_proevents_on_panel_state_change env w))
               = trace w @ calls @ [SetCacheValue ''panel_state_cache'']))
   \<and> (fst (manage_proevents_on_panel_state_change_try env w) = Raise e
        \<longrightarrow> panel_state_cache (snd (manage_proevents_on_panel_state_change env w))
              = panel_state_cache w)"
proof -
  let ?w1 = "w\<lparr>trace := trace w @ [GetAllLiveBuildingArmStates]\<rparr>"
  let ?w2 = "?w1\<lparr>trace := trace ?w1 @ [GetCacheValue ''panel_state_cache'']\<rparr>"
  let ?cached = "case panel_state_cache w of None \<Rightarrow> Map.empty | Some m \<Rightarrow> m"
  let ?loop = "for_each (live_arm_states env (trace w))
                 (panel_state_change_iteration env ?cached) ?cached ?w2"
  obtain r w3 where run: "?loop = (r, w3)"
    by (cases ?loop)
  obtain calls where calls: "trace w3 = trace ?w2 @ calls" "\<forall>k. SetCacheValue k \<notin> set calls"
    using loop_calls [of "live_arm_states env (trace w)" env ?cached ?cached ?w2] run by auto
  have store: "panel_state_cache w3 = panel_state_cache w"
    using loop_cache_untouched [of "live_arm_states env (trace w)" env ?cached ?cached ?w2] run
    by simp
  have first: "\<exists>calls. SetCacheValue ''panel_state_cache'' \<notin> set calls
       \<and> (trace (snd (manage_proevents_on_panel_state_change env w)) = trace w @ calls
          \<or> trace (snd (manage_proevents_on_panel_state_change env w))
               = trace w @ calls @ [SetCacheValue ''panel_state_cache''])"
  proof (cases "fails env (trace w) GetAllLiveBuildingArmStates")
    case (Some e1)
    then have "trace (snd (manage_proevents_on_panel_state_change env w))
                 = trace w @ [GetAllLiveBuildingArmStates]"
      by (simp add: manage_proevents_on_panel_state_change_def
            manage_proevents_on_panel_state_change_try_def flow_defs collaborator_defs)
    then show ?thesis
      by (intro exI [of _ "[GetAllLiveBuildingArmStates]"]) simp
  next
    case None
    note live_ok = this
    show ?thesis
    proof (cases "fails env (trace ?w1) (GetCacheValue ''panel_state_cache'')")
      case (Some e2)
      then have "trace (snd (manage_proevents_on_panel_state_change env w))
                   = trace w @ [GetAllLiveBuildingArmStates, GetCacheValue ''panel_state_cache'']"
        using live_ok
        by (simp add: manage_proevents_on_panel_state_change_def
              manage_proevents_on_panel_state_change_try_def flow_defs collaborator_defs)
      then show ?thesis
        by (intro exI [of _ "[GetAllLiveBuildingArmStates, GetCacheValue ''panel_state_cache'']"])
           simp
    next
      case None
      note cache_ok = this
      let ?calls = "[GetAllLiveBuildingArmStates, GetCacheValue ''panel_state_cache''] @ calls"
      have mem: "SetCacheValue ''panel_state_cache'' \<notin> set ?calls"
        using calls(2) by simp
      have "trace (snd (manage_proevents_on_panel_state_change env w)) = trace w @ ?calls
          \<or> trace (snd (manage_proevents_on_panel_state_change env w))
               = trace w @ ?calls @ [SetCacheValue ''panel_state_cache'']"
        using live_ok cache_ok run calls(1)
        by (cases r)
           (auto simp add: manage_proevents_on_panel_state_change_def
              manage_proevents_on_panel_state_change_try_def flow_defs collaborator_defs Let_def
              split: option.splits)
      with mem show ?thesis by blast
    qed
  qed
  have second: "fst (manage_proevents_on_panel_state_change_try env w) = Raise e
        \<longrightarrow> panel_state_cache (snd (manage_proevents_on_panel_state_change env w))
              = panel_state_cache w"
    using run store
    by (auto simp add: manage_proevents_on_panel_state_change_def
          manage_proevents_on_panel_state_change_try_def flow_defs collaborator_defs Let_def
          split: option.splits result.splits)
  from first second show ?thesis by blast
qed

theorem cache_update_all_or_nothing_witness:
  "fst (manage_proevents_on_panel_state_change_try failing_read_env two_building_world)
     = Raise (Exn ''timeout'')
   \<and> bulk_writes (trace (snd (manage_proevents_on_panel_state_change failing_read_env
                                two_building_world))) = [[(3, 0), (7, 0)]]
   \<and> panel_state_cache (snd (manage_proevents_on_panel_state_change failing_read_env
                                two_building_world))
       = panel_state_cache two_building_world"
  using cache_update_all_or_nothing [of failing_read_env two_building_world "Exn ''timeout''"]
  by (simp add: failing_read_env_def two_building_world_def spec_env_def str_1 str_2
        manage_proevents_on_panel_state_change_def manage_proevents_on_panel_state_change_try_def
        panel_state_change_iteration_def ignored_ids_of_def
        flow_defs collaborator_defs Let_def)


end
